theory Spec2Isabelle
  imports Complex_Main "HOL-Library.Sublist" "HOL-Library.Char_ord" "HOL-Library.List_Lexorder"
begin

section \<open>The C++ string primitives used by the tool\<close>

text \<open>
  A \<open>std::string\<close> is a list of bytes. The search functions of \<open>std::string\<close> return
  \<open>npos\<close> when nothing is found; here that is \<open>None\<close>. Where the source adds 1 to such a
  result, \<open>npos + 1\<close> wraps around to 0 in \<open>size_t\<close>, which \<open>succ_npos\<close> writes out.
\<close>

datatype cpp_exception = InvalidArgument | OutOfRange

fun find_first_idx :: "(char \<Rightarrow> bool) \<Rightarrow> string \<Rightarrow> nat option" where
  "find_first_idx P [] = None"
| "find_first_idx P (c # cs) = (if P c then Some 0 else map_option Suc (find_first_idx P cs))"

fun find_last_idx :: "(char \<Rightarrow> bool) \<Rightarrow> string \<Rightarrow> nat option" where
  "find_last_idx P [] = None"
| "find_last_idx P (c # cs) =
     (case find_last_idx P cs of
        Some i \<Rightarrow> Some (Suc i)
      | None \<Rightarrow> (if P c then Some 0 else None))"

text \<open>\<open>s.find(pat)\<close>: the first position at which \<open>pat\<close> occurs in \<open>s\<close>.\<close>

fun find_str :: "string \<Rightarrow> string \<Rightarrow> nat option" where
  "find_str [] pat = (if pat = [] then Some 0 else None)"
| "find_str (c # cs) pat =
     (if prefix pat (c # cs) then Some 0 else map_option Suc (find_str cs pat))"

definition succ_npos :: "nat option \<Rightarrow> nat" where
  "succ_npos r = (case r of None \<Rightarrow> 0 | Some i \<Rightarrow> i + 1)"

text \<open>\<open>s.substr(pos, count)\<close> throws \<open>std::out_of_range\<close> when \<open>pos > s.size()\<close>;
  a \<open>pos\<close> of \<open>npos\<close> is always too large.\<close>

definition substr2 :: "string \<Rightarrow> nat option \<Rightarrow> nat \<Rightarrow> cpp_exception + string" where
  "substr2 s pos cnt =
     (case pos of
        None \<Rightarrow> Inl OutOfRange
      | Some p \<Rightarrow> if p > length s then Inl OutOfRange else Inr (take cnt (drop p s)))"

definition is_blank :: "char \<Rightarrow> bool" where
  "is_blank c = (c = CHR '' '' \<or> c = CHR 0x09)"

definition isspace :: "char \<Rightarrow> bool" where
  "isspace c = (c = CHR '' '' \<or> c = CHR 0x09 \<or> c = CHR 0x0A \<or> c = CHR 0x0B
                \<or> c = CHR 0x0C \<or> c = CHR 0x0D)"

definition isdigit :: "char \<Rightarrow> bool" where
  "isdigit c = (48 \<le> (of_char c :: int) \<and> (of_char c :: int) \<le> 57)"

definition digit_value :: "char \<Rightarrow> int" where
  "digit_value c = of_char c - 48"

definition digit_char :: "int \<Rightarrow> char" where
  "digit_char d = char_of (48 + d)"

definition digits_value :: "string \<Rightarrow> int" where
  "digits_value ds = foldl (\<lambda>acc c. acc * 10 + digit_value c) 0 ds"

definition INT_MIN :: int where "INT_MIN = - (2 ^ 31)"
definition INT_MAX :: int where "INT_MAX = 2 ^ 31 - 1"

text \<open>
  \<open>std::stoi(s)\<close> in base 10: skips leading white space, reads an optional sign and the
  longest run of digits, and ignores whatever follows. It throws
  \<open>std::invalid_argument\<close> when there is no digit and \<open>std::out_of_range\<close> when the value
  does not fit an \<open>int\<close>.
\<close>

definition stoi :: "string \<Rightarrow> cpp_exception + int" where
  "stoi s =
     (let s1 = dropWhile isspace s;
          neg = (s1 \<noteq> [] \<and> hd s1 = CHR ''-'');
          s2 = (if s1 \<noteq> [] \<and> (hd s1 = CHR ''-'' \<or> hd s1 = CHR ''+'') then tl s1 else s1);
          ds = takeWhile isdigit s2
      in if ds = [] then Inl InvalidArgument
         else let v = (if neg then - digits_value ds else digits_value ds)
              in if v < INT_MIN \<or> INT_MAX < v then Inl OutOfRange else Inr v)"

text \<open>\<open>std::to_string(int)\<close>: the decimal numeral, with a minus sign for a negative value.\<close>

function digits_string :: "int \<Rightarrow> string" where
  "digits_string n =
     (if n < 10 then [digit_char n]
      else digits_string (n div 10) @ [digit_char (n mod 10)])"
  by pat_completeness auto
termination
  by (relation "measure nat") auto

declare digits_string.simps [simp del]

definition to_string :: "int \<Rightarrow> string" where
  "to_string i = (if i < 0 then CHR ''-'' # digits_string (- i) else digits_string i)"

section \<open>utils.cpp\<close>

subsection \<open>split_by_commas\<close>

text \<open>The loop of \<open>split_by_commas\<close> over the remaining input, with the current token and
  the result vector as its state.\<close>

fun split_loop :: "string \<Rightarrow> string \<Rightarrow> string list \<Rightarrow> string list" where
  "split_loop [] token result = (if token \<noteq> [] then result @ [token] else result)"
| "split_loop (c # cs) token result =
     (if c = CHR '',''
      then (if token \<noteq> [] then split_loop cs [] (result @ [token])
            else split_loop cs token result)
      else split_loop cs (token @ [c]) result)"

definition split_by_commas :: "string \<Rightarrow> string list" where
  "split_by_commas input = split_loop input [] []"

text \<open>
  The specification's reading, for comparison: the comma-separated fields of a string
  (one more than it has commas), of which the specification keeps the non-empty ones.
  \<open>join_commas\<close> puts the fields back together.
\<close>

fun comma_fields :: "string \<Rightarrow> string list" where
  "comma_fields [] = [[]]"
| "comma_fields (c # cs) =
     (if c = CHR '','' then [] # comma_fields cs
      else (case comma_fields cs of
              [] \<Rightarrow> [[c]]
            | f # fs \<Rightarrow> (c # f) # fs))"

fun join_commas :: "string list \<Rightarrow> string" where
  "join_commas [] = []"
| "join_commas [f] = f"
| "join_commas (f # g # fs) = f @ CHR '','' # join_commas (g # fs)"

subsection \<open>splitPath\<close>

record PathParts =
  directory :: string
  basename :: string
  stem :: string
  extension :: string

definition is_sep :: "char \<Rightarrow> bool" where
  "is_sep c = (c = CHR ''/'' \<or> c = CHR 0x5C)"

definition is_dot :: "char \<Rightarrow> bool" where
  "is_dot c = (c = CHR ''.'')"

definition splitPath :: "string \<Rightarrow> PathParts" where
  "splitPath path =
     (let (dir, base) =
            (case find_last_idx is_sep path of
               None \<Rightarrow> ([], path)
             | Some slashPos \<Rightarrow> (take slashPos path, drop (slashPos + 1) path));
          (st, ext) =
            (case find_last_idx is_dot base of
               None \<Rightarrow> (base, [])
             | Some dotPos \<Rightarrow> (take dotPos base, drop dotPos base))
      in \<lparr> directory = dir, basename = base, stem = st, extension = ext \<rparr>)"

text \<open>Stripping the separators at the end of a path, the normalisation the specification
  speaks of.\<close>

definition strip_trailing_seps :: "string \<Rightarrow> string" where
  "strip_trailing_seps p = rev (dropWhile is_sep (rev p))"

subsection \<open>find_pattern, stripString, getEPSGFromUTMZone, parseEPSG\<close>

definition find_pattern :: "string \<Rightarrow> string \<Rightarrow> bool" where
  "find_pattern filename pattern = (find_str filename pattern \<noteq> None)"

text \<open>\<open>result.erase(0, n)\<close> drops the first \<open>n\<close> bytes (all of them for \<open>npos\<close>);
  \<open>result.erase(p)\<close> keeps the first \<open>p\<close>.\<close>

definition stripString :: "string \<Rightarrow> string" where
  "stripString input =
     (let r1 = (case find_first_idx (\<lambda>c. \<not> is_blank c) input of
                  None \<Rightarrow> []
                | Some n \<Rightarrow> drop n input);
          r2 = take (succ_npos (find_last_idx (\<lambda>c. \<not> is_blank c) r1)) r1;
          r3 = (if r2 \<noteq> [] \<and> hd r2 = CHR 0x22 then tl r2 else r2);
          r4 = (if r3 \<noteq> [] \<and> last r3 = CHR 0x22 then butlast r3 else r3)
      in r4)"

definition getEPSGFromUTMZone :: "int \<Rightarrow> bool \<Rightarrow> string" where
  "getEPSGFromUTMZone zone isSouthernHemisphere =
     (if zone < 1 \<or> zone > 60 then []
      else let epsgCode = (if isSouthernHemisphere then 32700 + zone else 32600 + zone)
           in ''EPSG:'' @ to_string epsgCode)"

text \<open>\<open>epsgStr.compare(0, 5, "EPSG:")\<close> compares the first five bytes (or fewer, when the
  string is shorter) with the prefix.\<close>

definition parseEPSG :: "string \<Rightarrow> int" where
  "parseEPSG epsgStr =
     (if take 5 epsgStr \<noteq> ''EPSG:'' then - 1
      else (case stoi (drop 5 epsgStr) of
              Inr v \<Rightarrow> v
            | Inl e \<Rightarrow> - 1))"

subsection \<open>string_to_int\<close>

text \<open>
  \<open>std::stoi(s, &pos)\<close> also stores in \<open>pos\<close> the number of bytes it has read: the
  white space, the sign and the digits. \<open>string_to_int\<close> gives up, with an empty
  vector, on the first string that \<open>std::stoi\<close> refuses or does not read to its end.
\<close>

definition stoi_pos :: "string \<Rightarrow> nat" where
  "stoi_pos s =
     (let s1 = dropWhile isspace s;
          s2 = (if s1 \<noteq> [] \<and> (hd s1 = CHR ''-'' \<or> hd s1 = CHR ''+'') then tl s1 else s1)
      in length s - length s2 + length (takeWhile isdigit s2))"

fun string_to_int_loop :: "string list \<Rightarrow> int list \<Rightarrow> int list" where
  "string_to_int_loop [] numbers = numbers"
| "string_to_int_loop (s # rest) numbers =
     (case stoi s of
        Inl e \<Rightarrow> []
      | Inr v \<Rightarrow> if stoi_pos s \<noteq> length s then []
                 else string_to_int_loop rest (numbers @ [v]))"

definition string_to_int :: "string list \<Rightarrow> int list" where
  "string_to_int strings = string_to_int_loop strings []"

subsection \<open>locateMetadataFile and extractProjectionInfo\<close>

text \<open>
  The file system is seen through a function from a path to the content of the file
  there, \<open>None\<close> when no file can be opened at that path. \<open>fileExists\<close> opens the file
  and reports whether that worked.
\<close>

type_synonym file_reader = "string \<Rightarrow> string option"

definition fileExists :: "file_reader \<Rightarrow> string \<Rightarrow> bool" where
  "fileExists rd filename = (rd filename \<noteq> None)"

text \<open>\<open>dirPath.back()\<close> is undefined on an empty string; \<open>main\<close> rejects an empty input
  directory before it reaches the loop, and the model takes the branch that inserts the
  separator then.\<close>

definition lacks_trailing_slash :: "string \<Rightarrow> bool" where
  "lacks_trailing_slash dir = (dir = [] \<or> last dir \<noteq> CHR ''/'')"

definition locateMetadataFile :: "file_reader \<Rightarrow> string \<Rightarrow> string \<Rightarrow> string" where
  "locateMetadataFile rd dirPath tifFilename =
     (let base = take 40 tifFilename;
          metadataFilename =
            (if lacks_trailing_slash dirPath then dirPath @ ''/'' @ base @ ''_MTL.txt''
             else dirPath @ base @ ''_MTL.txt'')
      in if \<not> fileExists rd metadataFilename then [] else metadataFilename)"

text \<open>The lines that repeated \<open>std::getline\<close> calls yield: the text between line feeds,
  and the text after the last line feed when there is any.\<close>

fun getlines :: "string \<Rightarrow> string \<Rightarrow> string list" where
  "getlines [] cur = (if cur = [] then [] else [cur])"
| "getlines (c # cs) cur =
     (if c = CHR 0x0A then cur # getlines cs [] else getlines cs (cur @ [c]))"

text \<open>
  The body of the \<open>while\<close> loop of \<open>extractProjectionInfo\<close>, over the lines still to be
  read, with the two reference parameters as its state. Neither the \<open>substr\<close> that trims
  the line nor \<open>std::stoi\<close> is inside a \<open>try\<close> block: their exceptions leave the function.
\<close>

fun scan_lines :: "string list \<Rightarrow> string \<Rightarrow> int \<Rightarrow> cpp_exception + (string \<times> int)" where
  "scan_lines [] projection utmZone = Inr (projection, utmZone)"
| "scan_lines (raw # rest) projection utmZone =
     (case substr2 raw (find_first_idx (\<lambda>c. \<not> is_blank c) raw)
                       (succ_npos (find_last_idx (\<lambda>c. \<not> is_blank c) raw)) of
        Inl e \<Rightarrow> Inl e
      | Inr line \<Rightarrow>
          (let projection1 =
                 (if find_str line ''MAP_PROJECTION'' \<noteq> None
                  then stripString (drop (succ_npos (find_str line ''='')) line)
                  else projection)
           in case (if find_str line ''UTM_ZONE'' \<noteq> None
                    then stoi (drop (succ_npos (find_str line ''='')) line)
                    else Inr utmZone) of
                Inl e \<Rightarrow> Inl e
              | Inr utmZone1 \<Rightarrow>
                  if projection1 \<noteq> [] \<and> utmZone1 \<noteq> 0 then Inr (projection1, utmZone1)
                  else scan_lines rest projection1 utmZone1))"

text \<open>The result is the returned flag with the final values of the two reference
  parameters, or the exception that left the function.\<close>

definition extractProjectionInfo ::
    "file_reader \<Rightarrow> string \<Rightarrow> string \<Rightarrow> int \<Rightarrow> cpp_exception + (bool \<times> string \<times> int)" where
  "extractProjectionInfo rd filename projection utmZone =
     (case rd filename of
        None \<Rightarrow> Inr (False, projection, utmZone)
      | Some content \<Rightarrow>
          (case scan_lines (getlines content []) projection utmZone of
             Inl e \<Rightarrow> Inl e
           | Inr (p, z) \<Rightarrow> Inr (p \<noteq> [] \<and> z \<noteq> 0, p, z)))"

section \<open>main.cpp: the driver\<close>

text \<open>
  The command-line options as \<open>getopt_long\<close> leaves them, the bounding box, and the
  arguments of one call of the clip primitive. Coordinates are of any type with the
  arithmetic the driver uses on them (a subtraction, an addition and the constant 31).
\<close>

record options =
  input_dir :: string
  output_dir :: string
  source_crs_arg :: string
  mask_subset :: string
  datasets :: string
  pattern :: string
  label :: string
  debug :: bool

record 'c BoundingBox =
  minX :: 'c
  minY :: 'c
  maxX :: 'c
  maxY :: 'c

record 'c clip_call =
  inFile :: string
  outFile :: string
  bbox :: "'c BoundingBox"
  epsgCode :: int

text \<open>
  What the driver gets from the operating system and the geospatial library, over a state
  \<open>'w\<close> of the outside world that a clip may change: whether a directory exists, the
  envelope \<open>(xmin, xmax, ymin, ymax)\<close> of the mask (\<open>None\<close> when \<open>getShapefileExtent\<close>
  returns false), the names in a directory, the content of a file, and the clip itself.
\<close>

record ('w, 'c) env =
  directory_exists :: "'w \<Rightarrow> string \<Rightarrow> bool"
  getShapefileExtent :: "'w \<Rightarrow> string \<Rightarrow> ('c \<times> 'c \<times> 'c \<times> 'c) option"
  listFilesInDirectory :: "'w \<Rightarrow> string \<Rightarrow> string list"
  read_file :: "'w \<Rightarrow> file_reader"
  clipRasterByBBox :: "'w \<Rightarrow> 'c clip_call \<Rightarrow> bool \<times> 'w"

datatype exit_status = EXIT_SUCCESS | EXIT_FAILURE | Uncaught cpp_exception

text \<open>The state of the loop: the variable \<open>source_crs\<close>, the outside world, and the calls
  of the clip primitive made so far, each with its result.\<close>

record ('w, 'c) run_state =
  source_crs :: string
  world :: 'w
  clips :: "('c clip_call \<times> bool) list"

definition inflate :: "'c::{plus,minus,numeral} \<times> 'c \<times> 'c \<times> 'c \<Rightarrow> 'c BoundingBox" where
  "inflate e = (case e of (xmin, xmax, ymin, ymax) \<Rightarrow>
     \<lparr> minX = xmin - 31, minY = ymin - 31, maxX = xmax + 31, maxY = ymax + 31 \<rparr>)"

text \<open>The three filters at the head of the inner loop body.\<close>

definition matches :: "options \<Rightarrow> string \<Rightarrow> string \<Rightarrow> bool" where
  "matches opts band fname =
     (if pattern opts \<noteq> [] \<and> \<not> find_pattern fname (pattern opts) then False
      else if \<not> find_pattern fname (''_'' @ band) then False
      else extension (splitPath fname) = ''.tif'')"

text \<open>Lines 222 to 240: the value of \<open>source_crs\<close> after the metadata of the file has
  been looked at.\<close>

definition resolve_crs :: "file_reader \<Rightarrow> string \<Rightarrow> string \<Rightarrow> string \<Rightarrow> cpp_exception + string" where
  "resolve_crs rd in_dir fname src_crs =
     (let metadataPath = locateMetadataFile rd in_dir fname
      in if metadataPath = [] then Inr src_crs
         else (case extractProjectionInfo rd metadataPath [] 0 of
                 Inl e \<Rightarrow> Inl e
               | Inr (ok, projection, utm_zone) \<Rightarrow>
                   if ok
                   then (let temp_crs = getEPSGFromUTMZone utm_zone False
                         in if temp_crs \<noteq> [] \<and> src_crs \<noteq> temp_crs then Inr temp_crs
                            else Inr src_crs)
                   else Inr src_crs))"

text \<open>Lines 248 to 257. Both tests look at the input directory.\<close>

definition make_inFile :: "string \<Rightarrow> PathParts \<Rightarrow> string" where
  "make_inFile in_dir file_parts =
     (if lacks_trailing_slash in_dir
      then in_dir @ ''/'' @ stem file_parts @ extension file_parts
      else in_dir @ stem file_parts @ extension file_parts)"

definition make_outFile :: "string \<Rightarrow> string \<Rightarrow> string \<Rightarrow> PathParts \<Rightarrow> string" where
  "make_outFile in_dir out_dir lbl file_parts =
     (if lacks_trailing_slash in_dir
      then out_dir @ ''/'' @ stem file_parts @ lbl @ extension file_parts
      else out_dir @ stem file_parts @ lbl @ extension file_parts)"

text \<open>One pass through the body of the inner loop. The first component is \<open>None\<close> when
  the loop goes on and the exit status when the process ends there.\<close>

definition process_file ::
    "('w, 'c) env \<Rightarrow> options \<Rightarrow> 'c BoundingBox \<Rightarrow> string \<Rightarrow> string \<Rightarrow> ('w, 'c) run_state
       \<Rightarrow> exit_status option \<times> ('w, 'c) run_state" where
  "process_file ev opts box band fname st =
     (if \<not> matches opts band fname then (None, st)
      else let file_parts = splitPath fname
        in case resolve_crs (read_file ev (world st)) (input_dir opts) fname (source_crs st) of
             Inl e \<Rightarrow> (Some (Uncaught e), st)
           | Inr crs \<Rightarrow>
               (let st1 = st\<lparr>source_crs := crs\<rparr>;
                    code = parseEPSG crs
                in if code = - 1 then (Some EXIT_FAILURE, st1)
                   else let call = \<lparr> inFile = make_inFile (input_dir opts) file_parts,
                                     outFile = make_outFile (input_dir opts) (output_dir opts)
                                                 (label opts) file_parts,
                                     bbox = box, epsgCode = code \<rparr>;
                            r = clipRasterByBBox ev (world st1) call;
                            st2 = st1\<lparr>world := snd r, clips := clips st1 @ [(call, fst r)]\<rparr>
                        in if \<not> fst r then (Some EXIT_FAILURE, st2) else (None, st2)))"

fun run_files ::
    "('w, 'c) env \<Rightarrow> options \<Rightarrow> 'c BoundingBox \<Rightarrow> string \<Rightarrow> string list \<Rightarrow> ('w, 'c) run_state
       \<Rightarrow> exit_status option \<times> ('w, 'c) run_state" where
  "run_files ev opts box band [] st = (None, st)"
| "run_files ev opts box band (fname # rest) st =
     (case process_file ev opts box band fname st of
        (None, st1) \<Rightarrow> run_files ev opts box band rest st1
      | (Some code, st1) \<Rightarrow> (Some code, st1))"

fun run_bands ::
    "('w, 'c) env \<Rightarrow> options \<Rightarrow> 'c BoundingBox \<Rightarrow> string list \<Rightarrow> string list
       \<Rightarrow> ('w, 'c) run_state \<Rightarrow> exit_status option \<times> ('w, 'c) run_state" where
  "run_bands ev opts box list_files [] st = (None, st)"
| "run_bands ev opts box list_files (band # rest) st =
     (case run_files ev opts box band list_files st of
        (None, st1) \<Rightarrow> run_bands ev opts box list_files rest st1
      | (Some code, st1) \<Rightarrow> (Some code, st1))"

text \<open>\<open>main\<close> from line 98 on, after the options have been read: the checks of the
  arguments, the extent of the mask and its inflation, the sorted listing and the two
  loops. What it prints is left out.\<close>

definition main_body ::
    "('w, 'c::{plus,minus,numeral}) env \<Rightarrow> options \<Rightarrow> 'w \<Rightarrow> exit_status \<times> ('w, 'c) run_state" where
  "main_body ev opts w =
     (let st0 = \<lparr> source_crs = source_crs_arg opts, world = w, clips = [] \<rparr>
      in if input_dir opts = [] then (EXIT_FAILURE, st0)
         else if output_dir opts = [] then (EXIT_FAILURE, st0)
         else if source_crs_arg opts = [] then (EXIT_FAILURE, st0)
         else if mask_subset opts = [] then (EXIT_FAILURE, st0)
         else if datasets opts = [] then (EXIT_FAILURE, st0)
         else if \<not> directory_exists ev w (input_dir opts) then (EXIT_FAILURE, st0)
         else if \<not> directory_exists ev w (output_dir opts) then (EXIT_FAILURE, st0)
         else let list_datasets = split_by_commas (datasets opts)
           in if list_datasets = [] then (EXIT_FAILURE, st0)
              else (case getShapefileExtent ev w (mask_subset opts) of
                      None \<Rightarrow> (EXIT_FAILURE, st0)
                    | Some e \<Rightarrow>
                        (let box = inflate e;
                             list_files = sort (listFilesInDirectory ev w (input_dir opts))
                         in case run_bands ev opts box list_files list_datasets st0 of
                              (None, st1) \<Rightarrow> (EXIT_SUCCESS, st1)
                            | (Some code, st1) \<Rightarrow> (code, st1))))"

text \<open>
  The specification's valid metadata-derived CRS of a metadata record, for comparison:
  the record is valid when its projection is not empty and its zone is not zero, and a
  zone from 1 to 60 gives the Northern code 32600 + zone.
\<close>

definition valid_metadata_crs :: "string \<Rightarrow> int \<Rightarrow> string option" where
  "valid_metadata_crs projection utmZone =
     (if projection \<noteq> [] \<and> utmZone \<noteq> 0 \<and> 1 \<le> utmZone \<and> utmZone \<le> 60
      then Some (''EPSG:'' @ to_string (32600 + utmZone)) else None)"

text \<open>
  The specification's reading of the two loops, for comparison: one loop over the pairs
  of a band and a file, bands first, that threads one state through all its passes.
\<close>

fun run_passes ::
    "('w, 'c) env \<Rightarrow> options \<Rightarrow> 'c BoundingBox \<Rightarrow> (string \<times> string) list \<Rightarrow> ('w, 'c) run_state
       \<Rightarrow> exit_status option \<times> ('w, 'c) run_state" where
  "run_passes ev opts box [] st = (None, st)"
| "run_passes ev opts box ((band, fname) # rest) st =
     (case process_file ev opts box band fname st of
        (None, st1) \<Rightarrow> run_passes ev opts box rest st1
      | (Some code, st1) \<Rightarrow> (Some code, st1))"

text \<open>
  A switch of the source CRS that is never undone, as seen in the clips made since a
  state with source CRS \<open>c0\<close>: the first \<open>k\<close> of them got the code of \<open>c0\<close> and all the
  others the code of \<open>t\<close>, and the source CRS is now \<open>t\<close>, or it is still \<open>c0\<close> and no
  clip has got the code of \<open>t\<close> yet.
\<close>

definition crs_switches_once ::
    "string \<Rightarrow> string \<Rightarrow> ('c clip_call \<times> bool) list \<Rightarrow> string \<Rightarrow> bool" where
  "crs_switches_once c0 t new crs =
     (\<exists>k \<le> length new.
        (\<forall>c \<in> set (take k new). epsgCode (fst c) = parseEPSG c0)
        \<and> (\<forall>c \<in> set (drop k new). epsgCode (fst c) = parseEPSG t)
        \<and> (crs = t \<or> crs = c0 \<and> k = length new))"

text \<open>
  The discipline of the calls of the clip primitive that the proofs about an aborted run
  carry through the loops: every call but the last succeeded, all of them did when the
  loop goes on, and a failed call is the last one and ends the run with
  \<open>EXIT_FAILURE\<close>.
\<close>

definition failure_is_last :: "exit_status option \<Rightarrow> ('w, 'c) run_state \<Rightarrow> bool" where
  "failure_is_last fl st =
     ((\<forall>c \<in> set (butlast (clips st)). snd c)
      \<and> (fl = None \<longrightarrow> (\<forall>c \<in> set (clips st). snd c))
      \<and> ((\<exists>c \<in> set (clips st). \<not> snd c) \<longrightarrow>
            fl = Some EXIT_FAILURE \<and> \<not> snd (last (clips st))))"

section \<open>A small scene for the examples\<close>

text \<open>
  An input directory \<open>in/\<close> with three rasters of band \<open>B1\<close> and a text file, listed out of
  order; only the first raster has a metadata file, whose content is a parameter. The
  mask has the envelope (100,100)-(200,200). The clip fails on the input path given as
  the second parameter, and the state of the outside world counts the clips made.
\<close>

definition example_metadata :: string where
  "example_metadata =
     ''GROUP = PROJECTION_ATTRIBUTES'' @ [CHR 0x0A]
     @ ''    MAP_PROJECTION = '' @ [CHR 0x22] @ ''UTM'' @ [CHR 0x22] @ [CHR 0x0A]
     @ ''    UTM_ZONE = 12'' @ [CHR 0x0A]"

definition example_env :: "string \<Rightarrow> string \<Rightarrow> (nat, real) env" where
  "example_env mtl failing =
     \<lparr> directory_exists = (\<lambda>w d. True),
       getShapefileExtent = (\<lambda>w m. Some (100, 200, 100, 200)),
       listFilesInDirectory = (\<lambda>w d. [''c_B1.tif'', ''a_B1.tif'', ''notes.txt'', ''b_B1.tif'']),
       read_file = (\<lambda>w p. if p = ''in/a_B1.tif_MTL.txt'' then Some mtl else None),
       clipRasterByBBox = (\<lambda>w c. (inFile c \<noteq> failing, w + 1)) \<rparr>"

definition example_opts :: options where
  "example_opts =
     \<lparr> input_dir = ''in/'', output_dir = ''out'', source_crs_arg = ''EPSG:32615'',
       mask_subset = ''mask.shp'', datasets = ''B1'', pattern = [], label = ''_clip'',
       debug = False \<rparr>"

text \<open>
  The same scene with two bands: the listing has a raster of band \<open>B1\<close>, which has the
  metadata file, and a raster of band \<open>B2\<close>, which has none, and both bands are asked
  for.
\<close>

definition two_band_env :: "(nat, real) env" where
  "two_band_env =
     (example_env example_metadata [])
       \<lparr> listFilesInDirectory := (\<lambda>w d. [''b_B2.tif'', ''a_B1.tif'']) \<rparr>"

definition two_band_opts :: options where
  "two_band_opts = example_opts \<lparr> datasets := ''B1,B2'' \<rparr>"

text \<open>A metadata file whose zone is not a number.\<close>

definition malformed_metadata :: string where
  "malformed_metadata = ''UTM_ZONE = abc'' @ [CHR 0x0A]"

section \<open>Numerals: \<open>std::to_string\<close> and \<open>std::stoi\<close>\<close>

lemma digit_char_isdigit: "0 \<le> d \<Longrightarrow> d < 10 \<Longrightarrow> isdigit (digit_char d)"
  by (simp add: isdigit_def digit_char_def of_char_of)

lemma digit_value_digit_char: "0 \<le> d \<Longrightarrow> d < 10 \<Longrightarrow> digit_value (digit_char d) = d"
  by (simp add: digit_value_def digit_char_def of_char_of)

lemma digits_string_digits: "0 \<le> n \<Longrightarrow> \<forall>c \<in> set (digits_string n). isdigit c"
proof (induction n rule: digits_string.induct)
  case (1 n)
  show ?case
  proof (cases "n < 10")
    case True
    with 1 show ?thesis by (subst digits_string.simps) (simp add: digit_char_isdigit)
  next
    case False
    with 1 show ?thesis by (subst digits_string.simps) (simp add: digit_char_isdigit)
  qed
qed

lemma digits_string_nonempty: "digits_string n \<noteq> []"
  by (subst digits_string.simps) simp

lemma digits_value_snoc: "digits_value (ds @ [c]) = digits_value ds * 10 + digit_value c"
  by (simp add: digits_value_def)

lemma digits_value_digits_string: "0 \<le> n \<Longrightarrow> digits_value (digits_string n) = n"
proof (induction n rule: digits_string.induct)
  case (1 n)
  show ?case
  proof (cases "n < 10")
    case True
    with 1 show ?thesis
      by (subst digits_string.simps) (simp add: digits_value_def digit_value_digit_char)
  next
    case False
    with 1 have "digits_value (digits_string (n div 10)) = n div 10" by simp
    with False 1 show ?thesis
      by (subst digits_string.simps) (simp add: digits_value_snoc digit_value_digit_char)
  qed
qed

lemma digits_value_nonneg: "\<forall>c \<in> set ds. isdigit c \<Longrightarrow> 0 \<le> digits_value ds"
proof (induction ds rule: rev_induct)
  case Nil
  show ?case by (simp add: digits_value_def)
next
  case (snoc c ds)
  then show ?case by (simp add: digits_value_snoc digit_value_def isdigit_def)
qed

lemma isdigit_not_space: "isdigit c \<Longrightarrow> \<not> isspace c"
  by (auto simp: isdigit_def isspace_def)

lemma isdigit_not_sign: "isdigit c \<Longrightarrow> c \<noteq> CHR ''-'' \<and> c \<noteq> CHR ''+''"
  by (auto simp: isdigit_def)

lemma takeWhile_digits_append:
  assumes "\<forall>c \<in> set ds. isdigit c" and "r = [] \<or> \<not> isdigit (hd r)"
  shows "takeWhile isdigit (ds @ r) = ds"
  using assms by (cases r) (auto simp: takeWhile_append)

lemma stoi_digits:
  assumes ds: "ds \<noteq> []" "\<forall>c \<in> set ds. isdigit c"
    and r: "r = [] \<or> \<not> isdigit (hd r)"
    and bound: "digits_value ds \<le> INT_MAX"
  shows "stoi (ds @ r) = Inr (digits_value ds)"
proof -
  from ds obtain d ds' where dd: "ds = d # ds'" by (cases ds) auto
  with ds have d: "isdigit d" by simp
  then have nsp: "\<not> isspace d" and nsg: "d \<noteq> CHR ''-''" "d \<noteq> CHR ''+''"
    by (simp_all add: isdigit_not_space isdigit_not_sign)
  have dw: "dropWhile isspace (ds @ r) = ds @ r" using dd nsp by simp
  have tw: "takeWhile isdigit (ds @ r) = ds" by (rule takeWhile_digits_append [OF ds(2) r])
  have lo: "\<not> digits_value ds < INT_MIN"
    using digits_value_nonneg [OF ds(2)] by (simp add: INT_MIN_def)
  show ?thesis
    unfolding stoi_def dw using dd nsg tw ds(1) bound lo
    by (simp add: Let_def)
qed

lemma stoi_digits_string:
  assumes "0 \<le> n" "n \<le> INT_MAX" and "r = [] \<or> \<not> isdigit (hd r)"
  shows "stoi (digits_string n @ r) = Inr n"
  using stoi_digits [OF digits_string_nonempty digits_string_digits [OF assms(1)] assms(3)] assms(1,2)
  by (simp add: digits_value_digits_string)

lemma parseEPSG_to_string:
  assumes "0 \<le> n" "n \<le> INT_MAX" and "r = [] \<or> \<not> isdigit (hd r)"
  shows "parseEPSG (''EPSG:'' @ to_string n @ r) = n"
  using stoi_digits_string [OF assms] assms(1)
  by (simp add: parseEPSG_def to_string_def)


lemma to_string_32615: "to_string 32615 = ''32615''"
  by code_simp

lemma to_string_32715: "to_string 32715 = ''32715''"
  by code_simp

section \<open>Splitting strings and paths\<close>

lemma comma_fields_nonempty: "comma_fields s \<noteq> []"
  by (induction s) (auto split: list.splits)

lemma split_loop_fields:
  "split_loop s tok res =
     res @ filter (\<lambda>t. t \<noteq> []) ((tok @ hd (comma_fields s)) # tl (comma_fields s))"
proof (induction s arbitrary: tok res)
  case Nil
  show ?case by simp
next
  case (Cons c cs)
  obtain f fs where cf: "comma_fields cs = f # fs"
    using comma_fields_nonempty [of cs] by (cases "comma_fields cs") auto
  show ?case
  proof (cases "c = CHR '',''")
    case True
    then show ?thesis using Cons.IH [of "[]"] cf by simp
  next
    case False
    then show ?thesis using Cons.IH [of "tok @ [c]" res] cf by simp
  qed
qed

lemma split_by_commas_fields:
  "split_by_commas s = filter (\<lambda>t. t \<noteq> []) (comma_fields s)"
  using comma_fields_nonempty [of s]
  by (cases "comma_fields s") (simp_all add: split_by_commas_def split_loop_fields)

lemma join_commas_Cons: "join_commas ((c # f) # fs) = c # join_commas (f # fs)"
  by (cases fs) simp_all

lemma join_comma_fields: "join_commas (comma_fields s) = s"
proof (induction s)
  case Nil
  show ?case by simp
next
  case (Cons c cs)
  obtain f fs where cf: "comma_fields cs = f # fs"
    using comma_fields_nonempty [of cs] by (cases "comma_fields cs") auto
  show ?case using Cons cf by (simp add: join_commas_Cons)
qed

lemma comma_fields_no_comma: "\<forall>f \<in> set (comma_fields s). CHR '','' \<notin> set f"
  by (induction s) (auto split: list.splits)

lemma find_last_idx_None: "find_last_idx P s = None \<longleftrightarrow> (\<forall>c \<in> set s. \<not> P c)"
  by (induction s) (auto split: option.splits)

lemma find_last_idx_Some:
  "find_last_idx P s = Some i \<Longrightarrow>
     i < length s \<and> P (s ! i) \<and> (\<forall>c \<in> set (drop (Suc i) s). \<not> P c)"
proof (induction s arbitrary: i)
  case Nil
  then show ?case by simp
next
  case (Cons c cs)
  show ?case
  proof (cases "find_last_idx P cs")
    case None
    with Cons.prems have "i = 0" "P c" by (auto split: if_splits)
    with None show ?thesis by (simp add: find_last_idx_None)
  next
    case (Some j)
    with Cons.prems have "i = Suc j" by simp
    with Cons.IH [OF Some] show ?thesis by simp
  qed
qed

lemma splitPath_basename:
  "basename (splitPath p) =
     (case find_last_idx is_sep p of None \<Rightarrow> p | Some i \<Rightarrow> drop (i + 1) p)"
  by (simp add: splitPath_def Let_def split: option.splits prod.splits)

lemma splitPath_directory:
  "directory (splitPath p) =
     (case find_last_idx is_sep p of None \<Rightarrow> [] | Some i \<Rightarrow> take i p)"
  by (simp add: splitPath_def Let_def split: option.splits prod.splits)

lemma splitPath_stem:
  "stem (splitPath p) =
     (case find_last_idx is_dot (basename (splitPath p)) of
        None \<Rightarrow> basename (splitPath p)
      | Some d \<Rightarrow> take d (basename (splitPath p)))"
  unfolding splitPath_basename
  by (simp add: splitPath_def Let_def split: option.splits prod.splits)

lemma splitPath_extension:
  "extension (splitPath p) =
     (case find_last_idx is_dot (basename (splitPath p)) of
        None \<Rightarrow> []
      | Some d \<Rightarrow> drop d (basename (splitPath p)))"
  unfolding splitPath_basename
  by (simp add: splitPath_def Let_def split: option.splits prod.splits)

lemma splitPath_stem_extension:
  "basename (splitPath p) = stem (splitPath p) @ extension (splitPath p)"
  by (simp add: splitPath_stem splitPath_extension split: option.splits)

lemma splitPath_no_dot:
  assumes "CHR ''.'' \<notin> set (basename (splitPath p))"
  shows "extension (splitPath p) = []"
proof -
  from assms have "\<forall>c \<in> set (basename (splitPath p)). \<not> is_dot c"
    by (auto simp: is_dot_def)
  then have "find_last_idx is_dot (basename (splitPath p)) = None"
    by (simp add: find_last_idx_None)
  then show ?thesis by (simp add: splitPath_extension)
qed

lemma splitPath_no_sep:
  "\<forall>c \<in> set p. \<not> is_sep c \<Longrightarrow> directory (splitPath p) = [] \<and> basename (splitPath p) = p"
  using find_last_idx_None [of is_sep p]
  by (simp add: splitPath_basename splitPath_directory)

lemma splitPath_sep:
  assumes "\<exists>c \<in> set p. is_sep c"
  shows "\<exists>c. is_sep c \<and> p = directory (splitPath p) @ c # basename (splitPath p)
            \<and> (\<forall>b \<in> set (basename (splitPath p)). \<not> is_sep b)"
proof -
  from assms obtain i where i: "find_last_idx is_sep p = Some i"
    using find_last_idx_None [of is_sep p] by (cases "find_last_idx is_sep p") auto
  from find_last_idx_Some [OF i]
  have il: "i < length p" and sep: "is_sep (p ! i)"
    and rest: "\<forall>c \<in> set (drop (Suc i) p). \<not> is_sep c" by simp_all
  have d: "directory (splitPath p) = take i p" and b: "basename (splitPath p) = drop (Suc i) p"
    using i by (simp_all add: splitPath_basename splitPath_directory)
  have "p = take i p @ p ! i # drop (Suc i) p" using il by (simp add: id_take_nth_drop)
  with sep rest d b show ?thesis by metis
qed


section \<open>Claims about the string utilities\<close>

text \<open>
  C3. \<open>parseEPSG\<close> gives 32615 for \<open>"EPSG:32615"\<close> and -1 for \<open>"32615"\<close>, but it does
  not fail on a non-numeric suffix after the code: for \<open>"EPSG:32615abc"\<close> it gives 32615
  as well. It calls \<open>std::stoi\<close> without looking at how far the number was read, the
  check that \<open>string_to_int\<close> makes, which refuses \<open>"32615abc"\<close> and accepts \<open>"32615"\<close>.
\<close>

theorem parseEPSG_accepts_suffix:
  "parseEPSG ''EPSG:32615abc'' = 32615
   \<and> parseEPSG ''EPSG:32615'' = 32615
   \<and> parseEPSG ''32615'' = - 1
   \<and> string_to_int [''32615abc''] = []
   \<and> string_to_int [''32615''] = [32615]"
  by code_simp

text \<open>
  C4. For every zone from 1 to 60, \<open>getEPSGFromUTMZone\<close> returns \<open>"EPSG:"\<close> followed by
  the numeral of 32600 + zone for the Northern hemisphere and of 32700 + zone for the
  Southern one; for every zone below 1 or above 60 it returns the empty string. The
  returned string of a zone in range is read back by \<open>parseEPSG\<close> as that code.
\<close>

theorem getEPSGFromUTMZone_spec:
  "(1 \<le> zone \<and> zone \<le> 60 \<longrightarrow>
      getEPSGFromUTMZone zone False = ''EPSG:'' @ to_string (32600 + zone)
      \<and> getEPSGFromUTMZone zone True = ''EPSG:'' @ to_string (32700 + zone)
      \<and> parseEPSG (getEPSGFromUTMZone zone False) = 32600 + zone
      \<and> parseEPSG (getEPSGFromUTMZone zone True) = 32700 + zone)
   \<and> (zone < 1 \<or> zone > 60 \<longrightarrow> getEPSGFromUTMZone zone south = [])"
proof (intro conjI impI)
  assume z: "1 \<le> zone \<and> zone \<le> 60"
  then show n: "getEPSGFromUTMZone zone False = ''EPSG:'' @ to_string (32600 + zone)"
    and s: "getEPSGFromUTMZone zone True = ''EPSG:'' @ to_string (32700 + zone)"
    by (simp_all add: getEPSGFromUTMZone_def)
  have "parseEPSG (''EPSG:'' @ to_string (32600 + zone) @ []) = 32600 + zone"
    using z by (intro parseEPSG_to_string) (simp_all add: INT_MAX_def)
  then show "parseEPSG (getEPSGFromUTMZone zone False) = 32600 + zone" by (simp add: n)
  have "parseEPSG (''EPSG:'' @ to_string (32700 + zone) @ []) = 32700 + zone"
    using z by (intro parseEPSG_to_string) (simp_all add: INT_MAX_def)
  then show "parseEPSG (getEPSGFromUTMZone zone True) = 32700 + zone" by (simp add: s)
next
  assume "zone < 1 \<or> zone > 60"
  then show "getEPSGFromUTMZone zone south = []" by (auto simp: getEPSGFromUTMZone_def)
qed

theorem getEPSGFromUTMZone_spec_witness:
  "getEPSGFromUTMZone 15 False = ''EPSG:32615'' \<and> getEPSGFromUTMZone 15 True = ''EPSG:32715''
   \<and> getEPSGFromUTMZone 0 False = [] \<and> getEPSGFromUTMZone 61 True = []"
  using getEPSGFromUTMZone_spec [of 15] getEPSGFromUTMZone_spec [of 0 False]
    getEPSGFromUTMZone_spec [of 61 True]
  by (simp add: to_string_32615 to_string_32715)

text \<open>
  C5 (as amended). For every path, the basename is the stem followed by the extension,
  and a basename without a dot has an empty extension. A path without a separator has an
  empty directory and is its own basename; a path with a separator is its directory, one
  separator character (\<open>/\<close> or \<open>\\\<close>) and its basename, and the basename has no separator.
\<close>

theorem splitPath_parts:
  "basename (splitPath p) = stem (splitPath p) @ extension (splitPath p)
   \<and> (CHR ''.'' \<notin> set (basename (splitPath p)) \<longrightarrow> extension (splitPath p) = [])
   \<and> ((\<forall>c \<in> set p. \<not> is_sep c) \<longrightarrow> directory (splitPath p) = [] \<and> basename (splitPath p) = p)
   \<and> ((\<exists>c \<in> set p. is_sep c) \<longrightarrow>
        (\<exists>c. is_sep c \<and> p = directory (splitPath p) @ c # basename (splitPath p)
             \<and> (\<forall>b \<in> set (basename (splitPath p)). \<not> is_sep b)))"
  using splitPath_stem_extension [of p] splitPath_no_dot [of p] splitPath_no_sep [of p]
    splitPath_sep [of p]
  by blast

theorem splitPath_parts_witness:
  "basename (splitPath ''data/LC08_B4.tif'') = ''LC08_B4'' @ ''.tif''
   \<and> extension (splitPath ''README'') = [] \<and> directory (splitPath ''README'') = []
   \<and> basename (splitPath ''README'') = ''README''
   \<and> (\<exists>c. is_sep c \<and> ''data/LC08_B4.tif'' = ''data'' @ c # ''LC08_B4.tif'')"
proof -
  have v: "splitPath ''data/LC08_B4.tif'' = \<lparr> directory = ''data'', basename = ''LC08_B4.tif'',
             stem = ''LC08_B4'', extension = ''.tif'' \<rparr>"
    "splitPath ''README'' = \<lparr> directory = [], basename = ''README'', stem = ''README'',
             extension = [] \<rparr>"
    by code_simp+
  have h: "CHR ''.'' \<notin> set (basename (splitPath ''README''))"
    "\<forall>c \<in> set ''README''. \<not> is_sep c"
    "\<exists>c \<in> set ''data/LC08_B4.tif''. is_sep c"
    by (simp_all add: v is_sep_def)
  from splitPath_parts [of "''data/LC08_B4.tif''"] splitPath_parts [of "''README''"] h
  have "basename (splitPath ''data/LC08_B4.tif'')
          = stem (splitPath ''data/LC08_B4.tif'') @ extension (splitPath ''data/LC08_B4.tif'')
        \<and> extension (splitPath ''README'') = [] \<and> directory (splitPath ''README'') = []
        \<and> basename (splitPath ''README'') = ''README''
        \<and> (\<exists>c. is_sep c \<and> ''data/LC08_B4.tif''
               = directory (splitPath ''data/LC08_B4.tif'') @ c # basename (splitPath ''data/LC08_B4.tif''))"
    by blast
  then show ?thesis unfolding v by simp
qed

text \<open>The claim as it was stated fails: \<open>/foo\<close> and \<open>foo\<close> have the same directory and the
  same basename and are different paths, also once trailing separators are stripped, so
  no way of joining the two parts gives back both.\<close>

theorem splitPath_join_counterexample:
  "directory (splitPath ''/foo'') = directory (splitPath ''foo'')
   \<and> basename (splitPath ''/foo'') = basename (splitPath ''foo'')
   \<and> strip_trailing_seps ''/foo'' \<noteq> strip_trailing_seps ''foo''"
  by code_simp

text \<open>
  C6. For every input string, \<open>split_by_commas\<close> returns the non-empty ones among the
  comma-separated fields of the string, in their order and unchanged (nothing is
  trimmed). The fields are what lies between the commas: joined with commas they give
  the string back, and none of them contains a comma. In particular \<open>"a,,b, c"\<close> gives
  \<open>["a", "b", " c"]\<close>.
\<close>

theorem split_by_commas_tokens:
  "split_by_commas s = filter (\<lambda>t. t \<noteq> []) (comma_fields s)
   \<and> join_commas (comma_fields s) = s
   \<and> (\<forall>f \<in> set (comma_fields s). CHR '','' \<notin> set f)
   \<and> split_by_commas ''a,,b, c'' = [''a'', ''b'', '' c'']"
  using split_by_commas_fields [of s] join_comma_fields [of s] comma_fields_no_comma [of s]
  by (simp add: split_by_commas_def)

theorem split_by_commas_tokens_witness:
  "split_by_commas ''B4,,B5, B6,'' = [''B4'', ''B5'', '' B6'']
   \<and> comma_fields ''B4,,B5, B6,'' = [''B4'', [], ''B5'', '' B6'', []]
   \<and> join_commas [''B4'', [], ''B5'', '' B6'', []] = ''B4,,B5, B6,''"
proof -
  have v: "comma_fields ''B4,,B5, B6,'' = [''B4'', [], ''B5'', '' B6'', []]" by simp
  from split_by_commas_tokens [of "''B4,,B5, B6,''"] show ?thesis unfolding v by simp
qed

section \<open>The driver loop\<close>

lemma process_file_elim:
  assumes "process_file ev opts box band fname st = (fl, st')"
  obtains
    (skip) "\<not> matches opts band fname" "fl = None" "st' = st"
  | (crash) e where "matches opts band fname"
      "resolve_crs (read_file ev (world st)) (input_dir opts) fname (source_crs st) = Inl e"
      "fl = Some (Uncaught e)" "st' = st"
  | (bad_crs) crs where "matches opts band fname"
      "resolve_crs (read_file ev (world st)) (input_dir opts) fname (source_crs st) = Inr crs"
      "parseEPSG crs = - 1" "fl = Some EXIT_FAILURE" "st' = st\<lparr>source_crs := crs\<rparr>"
  | (clip) crs call ok w' where "matches opts band fname"
      "resolve_crs (read_file ev (world st)) (input_dir opts) fname (source_crs st) = Inr crs"
      "parseEPSG crs \<noteq> - 1"
      "call = \<lparr> inFile = make_inFile (input_dir opts) (splitPath fname),
                 outFile = make_outFile (input_dir opts) (output_dir opts) (label opts)
                             (splitPath fname),
                 bbox = box, epsgCode = parseEPSG crs \<rparr>"
      "clipRasterByBBox ev (world st) call = (ok, w')"
      "fl = (if ok then None else Some EXIT_FAILURE)"
      "st' = st\<lparr>source_crs := crs, world := w', clips := clips st @ [(call, ok)]\<rparr>"
proof (cases "matches opts band fname")
  case False
  with assms have "fl = None" "st' = st" by (simp_all add: process_file_def)
  with False show ?thesis by (rule skip)
next
  case m: True
  show ?thesis
  proof (cases "resolve_crs (read_file ev (world st)) (input_dir opts) fname (source_crs st)")
    case (Inl e)
    with assms m have "fl = Some (Uncaught e)" "st' = st" by (simp_all add: process_file_def)
    with m Inl show ?thesis by (rule crash)
  next
    case (Inr crs)
    show ?thesis
    proof (cases "parseEPSG crs = - 1")
      case True
      with assms m Inr have "fl = Some EXIT_FAILURE" "st' = st\<lparr>source_crs := crs\<rparr>"
        by (simp_all add: process_file_def Let_def)
      with m Inr True show ?thesis by (rule bad_crs)
    next
      case False
      define call where "call = \<lparr> inFile = make_inFile (input_dir opts) (splitPath fname),
                 outFile = make_outFile (input_dir opts) (output_dir opts) (label opts)
                             (splitPath fname),
                 bbox = box, epsgCode = parseEPSG crs \<rparr>"
      obtain ok w' where r: "clipRasterByBBox ev (world st) call = (ok, w')"
        by (cases "clipRasterByBBox ev (world st) call")
      from assms m Inr False r
      have "fl = (if ok then None else Some EXIT_FAILURE)"
        "st' = st\<lparr>source_crs := crs, world := w', clips := clips st @ [(call, ok)]\<rparr>"
        by (auto simp: process_file_def Let_def call_def split: if_splits)
      with m Inr False call_def r show ?thesis by (rule clip)
    qed
  qed
qed

lemma getEPSGFromUTMZone_nonempty:
  "getEPSGFromUTMZone z south \<noteq> [] \<longleftrightarrow> 1 \<le> z \<and> z \<le> 60"
  by (auto simp: getEPSGFromUTMZone_def Let_def)

lemma resolve_crs_cases:
  assumes "resolve_crs rd dir fname src = Inr crs"
  obtains
    (no_file) "locateMetadataFile rd dir fname = []" "crs = src"
  | (not_ok) p z where "locateMetadataFile rd dir fname \<noteq> []"
      "extractProjectionInfo rd (locateMetadataFile rd dir fname) [] 0 = Inr (False, p, z)"
      "crs = src"
  | (ok) p z where "locateMetadataFile rd dir fname \<noteq> []"
      "extractProjectionInfo rd (locateMetadataFile rd dir fname) [] 0 = Inr (True, p, z)"
      "crs = (if getEPSGFromUTMZone z False \<noteq> [] \<and> src \<noteq> getEPSGFromUTMZone z False
              then getEPSGFromUTMZone z False else src)"
proof (cases "locateMetadataFile rd dir fname = []")
  case True
  with assms have "crs = src" by (simp add: resolve_crs_def)
  with True show ?thesis by (rule no_file)
next
  case ne: False
  show ?thesis
  proof (cases "extractProjectionInfo rd (locateMetadataFile rd dir fname) [] 0")
    case (Inl e)
    with assms ne show ?thesis by (simp add: resolve_crs_def)
  next
    case (Inr r)
    obtain b p z where r: "r = (b, p, z)" by (cases r)
    show ?thesis
    proof (cases b)
      case True
      with assms ne Inr r
      have "crs = (if getEPSGFromUTMZone z False \<noteq> [] \<and> src \<noteq> getEPSGFromUTMZone z False
              then getEPSGFromUTMZone z False else src)"
        by (simp add: resolve_crs_def Let_def split: if_splits)
      with ne Inr r True show ?thesis by (intro ok [of p z]) simp_all
    next
      case False
      with assms ne Inr r have "crs = src" by (simp add: resolve_crs_def)
      with ne Inr r False show ?thesis by (intro not_ok [of p z]) simp_all
    qed
  qed
qed

lemma resolve_crs_northern:
  assumes "resolve_crs rd dir fname src = Inr crs" and "crs \<noteq> src"
  shows "\<exists>z. 1 \<le> z \<and> z \<le> 60 \<and> crs = getEPSGFromUTMZone z False"
  using assms(1)
proof (cases rule: resolve_crs_cases)
  case no_file
  with assms(2) show ?thesis by simp
next
  case (not_ok p z)
  with assms(2) show ?thesis by simp
next
  case (ok p z)
  with assms(2) have "getEPSGFromUTMZone z False \<noteq> []" "crs = getEPSGFromUTMZone z False"
    by (simp_all split: if_splits)
  then show ?thesis using getEPSGFromUTMZone_nonempty [of z False] by blast
qed

lemma run_files_invariant:
  assumes "\<forall>fname \<in> set files. \<forall>s fl s'. P s
              \<longrightarrow> process_file ev opts box band fname s = (fl, s') \<longrightarrow> P s'"
    and "P st" and "run_files ev opts box band files st = (fl, st')"
  shows "P st'"
  using assms
proof (induction files arbitrary: st)
  case Nil
  then show ?case by simp
next
  case (Cons f fs)
  obtain fl1 st1 where p: "process_file ev opts box band f st = (fl1, st1)"
    by (cases "process_file ev opts box band f st")
  have "f \<in> set (f # fs)" and sub: "\<forall>x \<in> set fs. x \<in> set (f # fs)" by simp_all
  with Cons.prems(1) have stepf: "\<forall>s fl s'. P s
              \<longrightarrow> process_file ev opts box band f s = (fl, s') \<longrightarrow> P s'"
    by (rule_tac bspec)
  from Cons.prems(1) sub
  have steps: "\<forall>fname \<in> set fs. \<forall>s fl s'. P s
              \<longrightarrow> process_file ev opts box band fname s = (fl, s') \<longrightarrow> P s'"
    by (intro ballI) (erule bspec, erule bspec, assumption)
  have P1: "P st1" using stepf Cons.prems(2) p by blast
  show ?case
  proof (cases fl1)
    case None
    with Cons.prems(3) p have rf: "run_files ev opts box band fs st1 = (fl, st')" by simp
    show ?thesis by (rule Cons.IH [OF steps P1 rf])
  next
    case (Some c)
    with Cons.prems(3) p have "st' = st1" by simp
    with P1 show ?thesis by simp
  qed
qed

lemma run_bands_invariant:
  assumes step: "\<forall>band. \<forall>fname \<in> set files. \<forall>s fl s'. P s
              \<longrightarrow> process_file ev opts box band fname s = (fl, s') \<longrightarrow> P s'"
    and "P st" and "run_bands ev opts box files bands st = (fl, st')"
  shows "P st'"
  using assms(2,3)
proof (induction bands arbitrary: st)
  case Nil
  then show ?case by simp
next
  case (Cons b bs)
  obtain fl1 st1 where p: "run_files ev opts box b files st = (fl1, st1)"
    by (cases "run_files ev opts box b files st")
  from step have "\<forall>fname \<in> set files. \<forall>s fl s'. P s
              \<longrightarrow> process_file ev opts box b fname s = (fl, s') \<longrightarrow> P s'" by blast
  then have P1: "P st1" using Cons.prems(1) p by (rule run_files_invariant)
  show ?case
  proof (cases fl1)
    case None
    with Cons.prems(2) p have "run_bands ev opts box files bs st1 = (fl, st')" by simp
    with P1 show ?thesis by (rule Cons.IH)
  next
    case (Some c)
    with Cons.prems(2) p have "st' = st1" by simp
    with P1 show ?thesis by simp
  qed
qed

lemma parseEPSG_getEPSGFromUTMZone:
  assumes "1 \<le> z" "z \<le> 60"
  shows "parseEPSG (getEPSGFromUTMZone z south) = (if south then 32700 else 32600) + z"
proof (cases south)
  case True
  have "parseEPSG (''EPSG:'' @ to_string (32700 + z) @ []) = 32700 + z"
    using assms by (intro parseEPSG_to_string) (simp_all add: INT_MAX_def)
  with assms True show ?thesis by (simp add: getEPSGFromUTMZone_def)
next
  case False
  have "parseEPSG (''EPSG:'' @ to_string (32600 + z) @ []) = 32600 + z"
    using assms by (intro parseEPSG_to_string) (simp_all add: INT_MAX_def)
  with assms False show ?thesis by (simp add: getEPSGFromUTMZone_def)
qed

lemma northern_not_southern:
  assumes "1 \<le> z" "z \<le> 60"
  shows "getEPSGFromUTMZone z False \<noteq> getEPSGFromUTMZone z' True"
proof (cases "1 \<le> z' \<and> z' \<le> 60")
  case True
  show ?thesis
  proof
    assume "getEPSGFromUTMZone z False = getEPSGFromUTMZone z' True"
    then have "parseEPSG (getEPSGFromUTMZone z False) = parseEPSG (getEPSGFromUTMZone z' True)"
      by simp
    with assms True show False by (simp add: parseEPSG_getEPSGFromUTMZone)
  qed
next
  case False
  then have "getEPSGFromUTMZone z' True = []" by (auto simp: getEPSGFromUTMZone_def)
  moreover have "getEPSGFromUTMZone z False \<noteq> []"
    using assms by (simp add: getEPSGFromUTMZone_nonempty)
  ultimately show ?thesis by simp
qed

lemma main_body_cases:
  assumes "main_body ev opts w = (code, final)"
  obtains
    (rejected) "code = EXIT_FAILURE"
      "final = \<lparr> source_crs = source_crs_arg opts, world = w, clips = [] \<rparr>"
      "input_dir opts = [] \<or> output_dir opts = [] \<or> source_crs_arg opts = []
       \<or> mask_subset opts = [] \<or> datasets opts = []
       \<or> \<not> directory_exists ev w (input_dir opts) \<or> \<not> directory_exists ev w (output_dir opts)
       \<or> split_by_commas (datasets opts) = []
       \<or> getShapefileExtent ev w (mask_subset opts) = None"
  | (loops) e fl where "getShapefileExtent ev w (mask_subset opts) = Some e"
      "run_bands ev opts (inflate e) (sort (listFilesInDirectory ev w (input_dir opts)))
         (split_by_commas (datasets opts))
         \<lparr> source_crs = source_crs_arg opts, world = w, clips = [] \<rparr> = (fl, final)"
      "code = (case fl of None \<Rightarrow> EXIT_SUCCESS | Some c \<Rightarrow> c)"
proof (cases "input_dir opts = [] \<or> output_dir opts = [] \<or> source_crs_arg opts = []
       \<or> mask_subset opts = [] \<or> datasets opts = []
       \<or> \<not> directory_exists ev w (input_dir opts) \<or> \<not> directory_exists ev w (output_dir opts)
       \<or> split_by_commas (datasets opts) = []
       \<or> getShapefileExtent ev w (mask_subset opts) = None")
  case True
  with assms have "code = EXIT_FAILURE"
    "final = \<lparr> source_crs = source_crs_arg opts, world = w, clips = [] \<rparr>"
    by (auto simp: main_body_def Let_def split: if_splits)
  then show ?thesis using True by (rule rejected)
next
  case False
  then obtain e where e: "getShapefileExtent ev w (mask_subset opts) = Some e" by auto
  obtain fl st1 where r: "run_bands ev opts (inflate e)
         (sort (listFilesInDirectory ev w (input_dir opts))) (split_by_commas (datasets opts))
         \<lparr> source_crs = source_crs_arg opts, world = w, clips = [] \<rparr> = (fl, st1)"
    by (cases "run_bands ev opts (inflate e)
         (sort (listFilesInDirectory ev w (input_dir opts))) (split_by_commas (datasets opts))
         \<lparr> source_crs = source_crs_arg opts, world = w, clips = [] \<rparr>")
  from assms False e r have "final = st1" "code = (case fl of None \<Rightarrow> EXIT_SUCCESS | Some c \<Rightarrow> c)"
    by (auto simp: main_body_def Let_def split: option.splits)
  with e r show ?thesis by (intro loops [of e fl]) simp_all
qed

lemma main_body_invariant:
  assumes step: "\<forall>box band fname s fl s'. P s
              \<longrightarrow> process_file ev opts box band fname s = (fl, s') \<longrightarrow> P s'"
    and init: "P \<lparr> source_crs = source_crs_arg opts, world = w, clips = [] \<rparr>"
    and run: "main_body ev opts w = (code, final)"
  shows "P final"
  using run
proof (cases rule: main_body_cases)
  case rejected
  with init show ?thesis by simp
next
  case (loops e fl)
  from step have "\<forall>band. \<forall>fname \<in> set (sort (listFilesInDirectory ev w (input_dir opts))).
      \<forall>s fl s'. P s \<longrightarrow> process_file ev opts (inflate e) band fname s = (fl, s') \<longrightarrow> P s'"
    by blast
  then show ?thesis using init loops(2) by (rule run_bands_invariant)
qed

section \<open>Claims about the driver\<close>

lemma example_run_ok:
  "main_body (example_env example_metadata []) example_opts 0 =
     (EXIT_SUCCESS,
      \<lparr> source_crs = ''EPSG:32612'', world = 3,
        clips =
          [(\<lparr> inFile = ''in/a_B1.tif'', outFile = ''outa_B1_clip.tif'',
              bbox = \<lparr> minX = 69, minY = 69, maxX = 231, maxY = 231 \<rparr>, epsgCode = 32612 \<rparr>,
            True),
           (\<lparr> inFile = ''in/b_B1.tif'', outFile = ''outb_B1_clip.tif'',
              bbox = \<lparr> minX = 69, minY = 69, maxX = 231, maxY = 231 \<rparr>, epsgCode = 32612 \<rparr>,
            True),
           (\<lparr> inFile = ''in/c_B1.tif'', outFile = ''outc_B1_clip.tif'',
              bbox = \<lparr> minX = 69, minY = 69, maxX = 231, maxY = 231 \<rparr>, epsgCode = 32612 \<rparr>,
            True)] \<rparr>)"
  by code_simp

lemma example_run_failing:
  "main_body (example_env example_metadata ''in/b_B1.tif'') example_opts 0 =
     (EXIT_FAILURE,
      \<lparr> source_crs = ''EPSG:32612'', world = 2,
        clips =
          [(\<lparr> inFile = ''in/a_B1.tif'', outFile = ''outa_B1_clip.tif'',
              bbox = \<lparr> minX = 69, minY = 69, maxX = 231, maxY = 231 \<rparr>, epsgCode = 32612 \<rparr>,
            True),
           (\<lparr> inFile = ''in/b_B1.tif'', outFile = ''outb_B1_clip.tif'',
              bbox = \<lparr> minX = 69, minY = 69, maxX = 231, maxY = 231 \<rparr>, epsgCode = 32612 \<rparr>,
            False)] \<rparr>)"
  by code_simp

lemma process_file_bbox:
  assumes "\<forall>c \<in> set (clips st). bbox (fst c) = box"
    and "process_file ev opts box band fname st = (fl, st')"
  shows "\<forall>c \<in> set (clips st'). bbox (fst c) = box"
  using assms(2)
proof (cases rule: process_file_elim)
  case skip
  with assms(1) show ?thesis by simp
next
  case (crash e)
  with assms(1) show ?thesis by simp
next
  case (bad_crs crs)
  with assms(1) show ?thesis by simp
next
  case (clip crs call ok w')
  with assms(1) show ?thesis by simp
qed

lemma run_bands_bbox:
  assumes "run_bands ev opts box files bands
             \<lparr> source_crs = c0, world = w, clips = [] \<rparr> = (fl, final)"
  shows "\<forall>c \<in> set (clips final). bbox (fst c) = box"
proof -
  let ?P = "\<lambda>s :: ('a, 'b) run_state. \<forall>c \<in> set (clips s). bbox (fst c) = box"
  have step: "\<forall>band. \<forall>fname \<in> set files. \<forall>s fl s'. ?P s
              \<longrightarrow> process_file ev opts box band fname s = (fl, s') \<longrightarrow> ?P s'"
    using process_file_bbox by blast
  have init: "?P \<lparr> source_crs = c0, world = w, clips = [] \<rparr>" by simp
  from step init assms show ?thesis by (rule run_bands_invariant [where P = ?P])
qed

text \<open>
  C9. When the extent of the mask has been read, every call of the clip primitive in the
  run gets the same box: the envelope with 31 subtracted from both minima and 31 added
  to both maxima. The box is computed once, before the loops, and the loops only pass it
  on. When the extent cannot be read the run fails before any clip. In particular the
  envelope (100,100)-(200,200) becomes the box (69,69)-(231,231).
\<close>

theorem bbox_inflated_once:
  "(main_body ev opts w = (code, final)
      \<and> getShapefileExtent ev w (mask_subset opts) = Some (xmin, xmax, ymin, ymax)
    \<longrightarrow> (\<forall>c \<in> set (clips final).
           bbox (fst c) = \<lparr> minX = xmin - 31, minY = ymin - 31,
                            maxX = xmax + 31, maxY = ymax + 31 \<rparr>))
   \<and> (main_body ev opts w = (code, final) \<and> getShapefileExtent ev w (mask_subset opts) = None
    \<longrightarrow> code = EXIT_FAILURE \<and> clips final = [])
   \<and> inflate (100 :: real, 200, 100, 200) = \<lparr> minX = 69, minY = 69, maxX = 231, maxY = 231 \<rparr>"
proof -
  have A: "\<forall>c \<in> set (clips final).
           bbox (fst c) = \<lparr> minX = xmin - 31, minY = ymin - 31,
                            maxX = xmax + 31, maxY = ymax + 31 \<rparr>"
    if run: "main_body ev opts w = (code, final)"
      and ext: "getShapefileExtent ev w (mask_subset opts) = Some (xmin, xmax, ymin, ymax)"
    using run
  proof (cases rule: main_body_cases)
    case rejected
    then show ?thesis by simp
  next
    case (loops e fl)
    with ext have "inflate e = \<lparr> minX = xmin - 31, minY = ymin - 31,
                            maxX = xmax + 31, maxY = ymax + 31 \<rparr>"
      by (simp add: inflate_def)
    with run_bands_bbox [OF loops(2)] show ?thesis by simp
  qed
  have B: "code = EXIT_FAILURE \<and> clips final = []"
    if run: "main_body ev opts w = (code, final)"
      and ext: "getShapefileExtent ev w (mask_subset opts) = None"
    using run
  proof (cases rule: main_body_cases)
    case rejected
    then show ?thesis by simp
  next
    case (loops e fl)
    with ext show ?thesis by simp
  qed
  have C: "inflate (100 :: real, 200, 100, 200)
          = \<lparr> minX = 69, minY = 69, maxX = 231, maxY = 231 \<rparr>"
    by (simp add: inflate_def)
  from A B C show ?thesis by blast
qed

theorem bbox_inflated_once_witness:
  "list_all (\<lambda>c. bbox (fst c) = \<lparr> minX = 69, minY = 69, maxX = 231, maxY = 231 \<rparr>)
     (clips (snd (main_body (example_env example_metadata []) example_opts 0)))
   \<and> length (clips (snd (main_body (example_env example_metadata []) example_opts 0))) = 3
   \<and> main_body ((example_env example_metadata []) \<lparr> getShapefileExtent := \<lambda>w m. None \<rparr>)
       example_opts 0
     = (EXIT_FAILURE, \<lparr> source_crs = ''EPSG:32615'', world = 0, clips = [] \<rparr>)"
proof -
  let ?ev = "example_env example_metadata []"
  let ?run = "main_body ?ev example_opts 0"
  let ?ev' = "?ev \<lparr> getShapefileExtent := \<lambda>w m. None \<rparr>"
  let ?rej = "main_body ?ev' example_opts 0"
  have ext: "getShapefileExtent ?ev 0 (mask_subset example_opts) = Some (100, 200, 100, 200)"
    by (simp add: example_env_def)
  have ext': "getShapefileExtent ?ev' 0 (mask_subset example_opts) = None"
    by simp
  have r: "?run = (fst ?run, snd ?run)" "?rej = (fst ?rej, snd ?rej)" by simp_all
  from bbox_inflated_once [of ?ev example_opts 0 "fst ?run" "snd ?run" 100 200 100 200] r ext
  have "\<forall>c \<in> set (clips (snd ?run)).
               bbox (fst c) = \<lparr> minX = 100 - 31, minY = 100 - 31,
                                maxX = 200 + 31, maxY = 200 + 31 \<rparr>"
    by blast
  then have all: "list_all (\<lambda>c. bbox (fst c) = \<lparr> minX = 69, minY = 69, maxX = 231, maxY = 231 \<rparr>)
     (clips (snd ?run))"
    by (simp add: list_all_iff)
  from bbox_inflated_once [of ?ev' example_opts 0 "fst ?rej" "snd ?rej"] r ext'
  have rej: "fst ?rej = EXIT_FAILURE \<and> clips (snd ?rej) = []"
    by blast
  have st: "source_crs (snd ?rej) = ''EPSG:32615''" "world (snd ?rej) = 0" by code_simp+
  have len: "length (clips (snd ?run)) = 3" by (simp add: example_run_ok)
  have "?rej = (EXIT_FAILURE, \<lparr> source_crs = ''EPSG:32615'', world = 0, clips = [] \<rparr>)"
    using rej st by (cases ?rej) auto
  with all len show ?thesis by simp
qed

lemma getEPSGFromUTMZone_northern:
  "1 \<le> z \<Longrightarrow> z \<le> 60 \<Longrightarrow> getEPSGFromUTMZone z False = ''EPSG:'' @ to_string (32600 + z)"
  by (simp add: getEPSGFromUTMZone_def)

lemma process_file_northern:
  assumes "process_file ev opts box band fname st = (fl, st')"
    and "source_crs st' \<noteq> source_crs st"
  shows "\<exists>z. 1 \<le> z \<and> z \<le> 60 \<and> source_crs st' = getEPSGFromUTMZone z False"
  using assms(1)
proof (cases rule: process_file_elim)
  case skip
  with assms(2) show ?thesis by simp
next
  case (crash e)
  with assms(2) show ?thesis by simp
next
  case (bad_crs crs)
  with assms(2) have "crs \<noteq> source_crs st" by simp
  with bad_crs(2) have "\<exists>z. 1 \<le> z \<and> z \<le> 60 \<and> crs = getEPSGFromUTMZone z False"
    by (rule resolve_crs_northern)
  with bad_crs(5) show ?thesis by simp
next
  case (clip crs call ok w')
  with assms(2) have "crs \<noteq> source_crs st" by simp
  with clip(2) have "\<exists>z. 1 \<le> z \<and> z \<le> 60 \<and> crs = getEPSGFromUTMZone z False"
    by (rule resolve_crs_northern)
  with clip(7) show ?thesis by simp
qed

lemma process_file_codes:
  assumes crs: "source_crs st = cfg \<or> (\<exists>z. 1 \<le> z \<and> z \<le> 60 \<and> source_crs st = getEPSGFromUTMZone z False)"
    and codes: "\<forall>c \<in> set (clips st). epsgCode (fst c) = parseEPSG cfg
                  \<or> (\<exists>z. 1 \<le> z \<and> z \<le> 60 \<and> epsgCode (fst c) = 32600 + z)"
    and step: "process_file ev opts box band fname st = (fl, st')"
  shows "(source_crs st' = cfg \<or> (\<exists>z. 1 \<le> z \<and> z \<le> 60 \<and> source_crs st' = getEPSGFromUTMZone z False))
       \<and> (\<forall>c \<in> set (clips st'). epsgCode (fst c) = parseEPSG cfg
                  \<or> (\<exists>z. 1 \<le> z \<and> z \<le> 60 \<and> epsgCode (fst c) = 32600 + z))"
proof -
  have crs': "source_crs st' = cfg
               \<or> (\<exists>z. 1 \<le> z \<and> z \<le> 60 \<and> source_crs st' = getEPSGFromUTMZone z False)"
    using crs process_file_northern [OF step] by (cases "source_crs st' = source_crs st") auto
  then have code': "parseEPSG (source_crs st') = parseEPSG cfg
               \<or> (\<exists>z. 1 \<le> z \<and> z \<le> 60 \<and> parseEPSG (source_crs st') = 32600 + z)"
    using parseEPSG_getEPSGFromUTMZone [of _ False] by auto
  have "\<forall>c \<in> set (clips st'). epsgCode (fst c) = parseEPSG cfg
                  \<or> (\<exists>z. 1 \<le> z \<and> z \<le> 60 \<and> epsgCode (fst c) = 32600 + z)"
    using step
  proof (cases rule: process_file_elim)
    case skip
    with codes show ?thesis by simp
  next
    case (crash e)
    with codes show ?thesis by simp
  next
    case (bad_crs crs)
    with codes show ?thesis by simp
  next
    case (clip crs call ok w')
    from clip(7) have "source_crs st' = crs" by simp
    with code' clip(4) have "epsgCode call = parseEPSG cfg
               \<or> (\<exists>z. 1 \<le> z \<and> z \<le> 60 \<and> epsgCode call = 32600 + z)"
      by simp
    with codes clip(7) show ?thesis by simp
  qed
  with crs' show ?thesis by simp
qed

text \<open>
  C10. Whenever the processing of a file changes the source CRS, the new value is
  \<open>"EPSG:"\<close> followed by the numeral of 32600 + zone for a zone from 1 to 60: the driver
  calls \<open>getEPSGFromUTMZone\<close> with its hemisphere flag left at the default, Northern, and
  the result differs from every Southern code that the function can return. So in a run
  the source CRS is the configured one or such a Northern code, and the code passed to
  every clip is the one parsed from the configured CRS or 32600 + zone.
\<close>

theorem metadata_override_is_northern:
  "(process_file ev opts box band fname st = (fl, st') \<and> source_crs st' \<noteq> source_crs st \<longrightarrow>
      (\<exists>z. 1 \<le> z \<and> z \<le> 60 \<and> source_crs st' = getEPSGFromUTMZone z False
            \<and> source_crs st' = ''EPSG:'' @ to_string (32600 + z))
      \<and> (\<forall>z. source_crs st' \<noteq> getEPSGFromUTMZone z True))
   \<and> (main_body ev opts w = (code, final) \<longrightarrow>
        (source_crs final = source_crs_arg opts
         \<or> (\<exists>z. 1 \<le> z \<and> z \<le> 60 \<and> source_crs final = ''EPSG:'' @ to_string (32600 + z)))
        \<and> (\<forall>c \<in> set (clips final).
              epsgCode (fst c) = parseEPSG (source_crs_arg opts)
              \<or> (\<exists>z. 1 \<le> z \<and> z \<le> 60 \<and> epsgCode (fst c) = 32600 + z)))"
proof -
  have A: "(\<exists>z. 1 \<le> z \<and> z \<le> 60 \<and> source_crs st' = getEPSGFromUTMZone z False
            \<and> source_crs st' = ''EPSG:'' @ to_string (32600 + z))
      \<and> (\<forall>z. source_crs st' \<noteq> getEPSGFromUTMZone z True)"
    if "process_file ev opts box band fname st = (fl, st')" "source_crs st' \<noteq> source_crs st"
  proof -
    from that obtain z where z: "1 \<le> z" "z \<le> 60" "source_crs st' = getEPSGFromUTMZone z False"
      using process_file_northern by blast
    then have "source_crs st' = ''EPSG:'' @ to_string (32600 + z)"
      by (simp add: getEPSGFromUTMZone_northern)
    moreover have "\<forall>z'. source_crs st' \<noteq> getEPSGFromUTMZone z' True"
      using z northern_not_southern by simp
    ultimately show ?thesis using z by blast
  qed
  have B: "(source_crs final = source_crs_arg opts
         \<or> (\<exists>z. 1 \<le> z \<and> z \<le> 60 \<and> source_crs final = ''EPSG:'' @ to_string (32600 + z)))
        \<and> (\<forall>c \<in> set (clips final).
              epsgCode (fst c) = parseEPSG (source_crs_arg opts)
              \<or> (\<exists>z. 1 \<le> z \<and> z \<le> 60 \<and> epsgCode (fst c) = 32600 + z))"
    if run: "main_body ev opts w = (code, final)"
  proof -
    let ?P = "\<lambda>s :: ('a, 'b) run_state.
        (source_crs s = source_crs_arg opts
           \<or> (\<exists>z. 1 \<le> z \<and> z \<le> 60 \<and> source_crs s = getEPSGFromUTMZone z False))
        \<and> (\<forall>c \<in> set (clips s). epsgCode (fst c) = parseEPSG (source_crs_arg opts)
                  \<or> (\<exists>z. 1 \<le> z \<and> z \<le> 60 \<and> epsgCode (fst c) = 32600 + z))"
    have step: "\<forall>box band fname s fl s'. ?P s
              \<longrightarrow> process_file ev opts box band fname s = (fl, s') \<longrightarrow> ?P s'"
      using process_file_codes [where cfg = "source_crs_arg opts"] by blast
    have init: "?P \<lparr> source_crs = source_crs_arg opts, world = w, clips = [] \<rparr>" by simp
    from step init run have "?P final" by (rule main_body_invariant [where P = ?P])
    then show ?thesis using getEPSGFromUTMZone_northern by metis
  qed
  from A B show ?thesis by blast
qed

lemma example_first_file:
  "process_file (example_env example_metadata []) example_opts
     \<lparr> minX = 69, minY = 69, maxX = 231, maxY = 231 \<rparr> ''B1'' ''a_B1.tif''
     \<lparr> source_crs = ''EPSG:32615'', world = 0, clips = [] \<rparr>
   = (None,
      \<lparr> source_crs = ''EPSG:32612'', world = 1,
        clips =
          [(\<lparr> inFile = ''in/a_B1.tif'', outFile = ''outa_B1_clip.tif'',
              bbox = \<lparr> minX = 69, minY = 69, maxX = 231, maxY = 231 \<rparr>, epsgCode = 32612 \<rparr>,
            True)] \<rparr>)"
  by code_simp

theorem metadata_override_is_northern_witness:
  "source_crs (snd (process_file (example_env example_metadata []) example_opts
       \<lparr> minX = 69, minY = 69, maxX = 231, maxY = 231 \<rparr> ''B1'' ''a_B1.tif''
       \<lparr> source_crs = ''EPSG:32615'', world = 0, clips = [] \<rparr>)) = ''EPSG:32612''
   \<and> (\<exists>z. 1 \<le> z \<and> z \<le> 60 \<and> ''EPSG:32612'' = ''EPSG:'' @ to_string (32600 + z))
   \<and> ''EPSG:32612'' \<noteq> getEPSGFromUTMZone 12 True
   \<and> list_all (\<lambda>c. epsgCode (fst c) = parseEPSG ''EPSG:32615''
                   \<or> (\<exists>z. 1 \<le> z \<and> z \<le> 60 \<and> epsgCode (fst c) = 32600 + z))
        (clips (snd (main_body (example_env example_metadata []) example_opts 0)))
   \<and> length (clips (snd (main_body (example_env example_metadata []) example_opts 0))) = 3"
proof -
  let ?ev = "example_env example_metadata []"
  let ?box = "\<lparr> minX = 69 :: real, minY = 69, maxX = 231, maxY = 231 \<rparr>"
  let ?st0 = "\<lparr> source_crs = ''EPSG:32615'', world = 0 :: nat,
                clips = [] :: (real clip_call \<times> bool) list \<rparr>"
  let ?step = "process_file ?ev example_opts ?box ''B1'' ''a_B1.tif'' ?st0"
  let ?run = "main_body ?ev example_opts 0"
  note inst = metadata_override_is_northern [where ev = ?ev and opts = example_opts
      and box = ?box and band = "''B1''" and fname = "''a_B1.tif''" and st = ?st0
      and fl = "fst ?step" and st' = "snd ?step" and w = 0 and code = "fst ?run"
      and final = "snd ?run"]
  have changed: "source_crs (snd ?step) \<noteq> source_crs ?st0"
    and new: "source_crs (snd ?step) = ''EPSG:32612''"
    by (simp_all add: example_first_file)
  from inst changed
  have n: "\<exists>z. 1 \<le> z \<and> z \<le> 60 \<and> source_crs (snd ?step) = ''EPSG:'' @ to_string (32600 + z)"
    and s: "source_crs (snd ?step) \<noteq> getEPSGFromUTMZone 12 True"
    by auto
  from inst
  have "\<forall>c \<in> set (clips (snd ?run)).
              epsgCode (fst c) = parseEPSG (source_crs_arg example_opts)
              \<or> (\<exists>z. 1 \<le> z \<and> z \<le> 60 \<and> epsgCode (fst c) = 32600 + z)"
    by simp
  then have codes: "list_all (\<lambda>c. epsgCode (fst c) = parseEPSG ''EPSG:32615''
                   \<or> (\<exists>z. 1 \<le> z \<and> z \<le> 60 \<and> epsgCode (fst c) = 32600 + z))
        (clips (snd ?run))"
    by (simp add: list_all_iff example_opts_def)
  have len: "length (clips (snd ?run)) = 3" by (simp add: example_run_ok)
  from n s new codes len show ?thesis by simp
qed

lemma process_file_failure_is_last:
  assumes ok: "\<forall>c \<in> set (clips st). snd c"
    and step: "process_file ev opts box band fname st = (fl, st')"
  shows "failure_is_last fl st'"
  using step
proof (cases rule: process_file_elim)
  case skip
  with ok show ?thesis by (auto simp: failure_is_last_def dest: in_set_butlastD)
next
  case (crash e)
  with ok show ?thesis by (auto simp: failure_is_last_def dest: in_set_butlastD)
next
  case (bad_crs crs)
  with ok show ?thesis by (auto simp: failure_is_last_def dest: in_set_butlastD)
next
  case (clip crs call okc w')
  with ok show ?thesis by (auto simp: failure_is_last_def)
qed

lemma run_files_failure_is_last:
  assumes "\<forall>c \<in> set (clips st). snd c"
    and "run_files ev opts box band files st = (fl, st')"
  shows "failure_is_last fl st'"
  using assms
proof (induction files arbitrary: st)
  case Nil
  then show ?case by (auto simp: failure_is_last_def dest: in_set_butlastD)
next
  case (Cons f fs)
  obtain fl1 st1 where p: "process_file ev opts box band f st = (fl1, st1)"
    by (cases "process_file ev opts box band f st")
  have F: "failure_is_last fl1 st1" by (rule process_file_failure_is_last [OF Cons.prems(1) p])
  show ?case
  proof (cases fl1)
    case None
    with F have ok1: "\<forall>c \<in> set (clips st1). snd c" by (simp add: failure_is_last_def)
    from None Cons.prems(2) p have rf: "run_files ev opts box band fs st1 = (fl, st')" by simp
    show ?thesis by (rule Cons.IH [OF ok1 rf])
  next
    case (Some c)
    with Cons.prems(2) p have "fl = fl1" "st' = st1" by simp_all
    with F show ?thesis by simp
  qed
qed

lemma run_bands_failure_is_last:
  assumes "\<forall>c \<in> set (clips st). snd c"
    and "run_bands ev opts box files bands st = (fl, st')"
  shows "failure_is_last fl st'"
  using assms
proof (induction bands arbitrary: st)
  case Nil
  then show ?case by (auto simp: failure_is_last_def dest: in_set_butlastD)
next
  case (Cons b bs)
  obtain fl1 st1 where p: "run_files ev opts box b files st = (fl1, st1)"
    by (cases "run_files ev opts box b files st")
  have F: "failure_is_last fl1 st1" by (rule run_files_failure_is_last [OF Cons.prems(1) p])
  show ?case
  proof (cases fl1)
    case None
    with F have ok1: "\<forall>c \<in> set (clips st1). snd c" by (simp add: failure_is_last_def)
    from None Cons.prems(2) p have rf: "run_bands ev opts box files bs st1 = (fl, st')" by simp
    show ?thesis by (rule Cons.IH [OF ok1 rf])
  next
    case (Some c)
    with Cons.prems(2) p have "fl = fl1" "st' = st1" by simp_all
    with F show ?thesis by simp
  qed
qed

lemma process_file_failed_clip:
  assumes "process_file ev opts box band fname st = (fl, st')"
    and "clips st' = clips st @ [(call, False)]"
  shows "fl = Some EXIT_FAILURE"
  using assms(1)
proof (cases rule: process_file_elim)
  case skip
  with assms(2) show ?thesis by simp
next
  case (crash e)
  with assms(2) show ?thesis by simp
next
  case (bad_crs crs)
  with assms(2) show ?thesis by simp
next
  case (clip crs call' ok w')
  with assms(2) show ?thesis by simp
qed

text \<open>
  C8. When the clip of a file fails, the inner loop returns at once with
  \<open>EXIT_FAILURE\<close> and the state as that clip left it, whatever files remain, and so does
  the outer loop, whatever bands remain. In every run each call of the clip primitive
  but the last has succeeded, and a run with a failed call ends with \<open>EXIT_FAILURE\<close>
  and that call as its last.
\<close>

theorem clip_failure_aborts:
  "(process_file ev opts box band fname st = (fl, st') \<and> clips st' = clips st @ [(call, False)]
      \<longrightarrow> fl = Some EXIT_FAILURE
          \<and> run_files ev opts box band (fname # rest) st = (Some EXIT_FAILURE, st')
          \<and> run_bands ev opts box (fname # rest) (band # bands) st = (Some EXIT_FAILURE, st'))
   \<and> (main_body ev opts w = (code, final)
      \<longrightarrow> (\<forall>c \<in> set (butlast (clips final)). snd c)
          \<and> ((\<exists>c \<in> set (clips final). \<not> snd c)
               \<longrightarrow> code = EXIT_FAILURE \<and> \<not> snd (last (clips final))))"
proof -
  have A: "fl = Some EXIT_FAILURE
          \<and> run_files ev opts box band (fname # rest) st = (Some EXIT_FAILURE, st')
          \<and> run_bands ev opts box (fname # rest) (band # bands) st = (Some EXIT_FAILURE, st')"
    if p: "process_file ev opts box band fname st = (fl, st')"
      and c: "clips st' = clips st @ [(call, False)]"
  proof -
    from p c have fl: "fl = Some EXIT_FAILURE" by (rule process_file_failed_clip)
    with p have rf: "run_files ev opts box band (fname # rest) st = (Some EXIT_FAILURE, st')"
      by simp
    then have "run_bands ev opts box (fname # rest) (band # bands) st = (Some EXIT_FAILURE, st')"
      by simp
    with fl rf show ?thesis by simp
  qed
  have B: "(\<forall>c \<in> set (butlast (clips final)). snd c)
          \<and> ((\<exists>c \<in> set (clips final). \<not> snd c)
               \<longrightarrow> code = EXIT_FAILURE \<and> \<not> snd (last (clips final)))"
    if run: "main_body ev opts w = (code, final)"
    using run
  proof (cases rule: main_body_cases)
    case rejected
    then show ?thesis by simp
  next
    case (loops e fl')
    have "failure_is_last fl' final"
      by (rule run_bands_failure_is_last [OF _ loops(2)]) simp
    with loops(3) show ?thesis by (auto simp: failure_is_last_def)
  qed
  from A B show ?thesis by blast
qed

lemma example_second_file_fails:
  "process_file (example_env example_metadata ''in/b_B1.tif'') example_opts
     \<lparr> minX = 69, minY = 69, maxX = 231, maxY = 231 \<rparr> ''B1'' ''b_B1.tif''
     \<lparr> source_crs = ''EPSG:32612'', world = 1,
       clips =
          [(\<lparr> inFile = ''in/a_B1.tif'', outFile = ''outa_B1_clip.tif'',
              bbox = \<lparr> minX = 69, minY = 69, maxX = 231, maxY = 231 \<rparr>, epsgCode = 32612 \<rparr>,
            True)] \<rparr>
   = (Some EXIT_FAILURE,
      \<lparr> source_crs = ''EPSG:32612'', world = 2,
        clips =
          [(\<lparr> inFile = ''in/a_B1.tif'', outFile = ''outa_B1_clip.tif'',
              bbox = \<lparr> minX = 69, minY = 69, maxX = 231, maxY = 231 \<rparr>, epsgCode = 32612 \<rparr>,
            True),
           (\<lparr> inFile = ''in/b_B1.tif'', outFile = ''outb_B1_clip.tif'',
              bbox = \<lparr> minX = 69, minY = 69, maxX = 231, maxY = 231 \<rparr>, epsgCode = 32612 \<rparr>,
            False)] \<rparr>)"
  by code_simp

theorem clip_failure_aborts_witness:
  "run_files (example_env example_metadata ''in/b_B1.tif'') example_opts
     \<lparr> minX = 69, minY = 69, maxX = 231, maxY = 231 \<rparr> ''B1'' [''b_B1.tif'', ''c_B1.tif'']
     \<lparr> source_crs = ''EPSG:32612'', world = 1,
       clips =
          [(\<lparr> inFile = ''in/a_B1.tif'', outFile = ''outa_B1_clip.tif'',
              bbox = \<lparr> minX = 69, minY = 69, maxX = 231, maxY = 231 \<rparr>, epsgCode = 32612 \<rparr>,
            True)] \<rparr>
   = (Some EXIT_FAILURE,
      \<lparr> source_crs = ''EPSG:32612'', world = 2,
        clips =
          [(\<lparr> inFile = ''in/a_B1.tif'', outFile = ''outa_B1_clip.tif'',
              bbox = \<lparr> minX = 69, minY = 69, maxX = 231, maxY = 231 \<rparr>, epsgCode = 32612 \<rparr>,
            True),
           (\<lparr> inFile = ''in/b_B1.tif'', outFile = ''outb_B1_clip.tif'',
              bbox = \<lparr> minX = 69, minY = 69, maxX = 231, maxY = 231 \<rparr>, epsgCode = 32612 \<rparr>,
            False)] \<rparr>)
   \<and> fst (main_body (example_env example_metadata ''in/b_B1.tif'') example_opts 0) = EXIT_FAILURE
   \<and> \<not> snd (last (clips (snd (main_body (example_env example_metadata ''in/b_B1.tif'')
                                  example_opts 0))))
   \<and> map (inFile \<circ> fst)
        (clips (snd (main_body (example_env example_metadata ''in/b_B1.tif'') example_opts 0)))
      = [''in/a_B1.tif'', ''in/b_B1.tif'']"
proof -
  let ?ev = "example_env example_metadata ''in/b_B1.tif''"
  let ?box = "\<lparr> minX = 69 :: real, minY = 69, maxX = 231, maxY = 231 \<rparr>"
  let ?a = "(\<lparr> inFile = ''in/a_B1.tif'', outFile = ''outa_B1_clip.tif'', bbox = ?box,
               epsgCode = 32612 \<rparr>, True)"
  let ?b = "\<lparr> inFile = ''in/b_B1.tif'', outFile = ''outb_B1_clip.tif'', bbox = ?box,
               epsgCode = 32612 \<rparr>"
  let ?st1 = "\<lparr> source_crs = ''EPSG:32612'', world = 1 :: nat, clips = [?a] \<rparr>"
  let ?st2 = "\<lparr> source_crs = ''EPSG:32612'', world = 2 :: nat, clips = [?a, (?b, False)] \<rparr>"
  let ?run = "main_body ?ev example_opts 0"
  note inst = clip_failure_aborts [where ev = ?ev and opts = example_opts and box = ?box
      and band = "''B1''" and fname = "''b_B1.tif''" and rest = "[''c_B1.tif'']" and st = ?st1
      and fl = "Some EXIT_FAILURE" and st' = ?st2 and call = ?b and bands = "[]" and w = 0
      and code = "fst ?run" and final = "snd ?run"]
  have step: "process_file ?ev example_opts ?box ''B1'' ''b_B1.tif'' ?st1
                = (Some EXIT_FAILURE, ?st2)"
    by (rule example_second_file_fails)
  have app: "clips ?st2 = clips ?st1 @ [(?b, False)]" by simp
  from inst step app
  have inner: "run_files ?ev example_opts ?box ''B1'' [''b_B1.tif'', ''c_B1.tif''] ?st1
                 = (Some EXIT_FAILURE, ?st2)"
    by blast
  have failed: "\<exists>c \<in> set (clips (snd ?run)). \<not> snd c" by (simp add: example_run_failing)
  from inst failed have whole: "fst ?run = EXIT_FAILURE \<and> \<not> snd (last (clips (snd ?run)))"
    by simp
  have names: "map (inFile \<circ> fst) (clips (snd ?run)) = [''in/a_B1.tif'', ''in/b_B1.tif'']"
    by (simp add: example_run_failing)
  from inner whole names show ?thesis by blast
qed

lemma extractProjectionInfo_flag:
  assumes "extractProjectionInfo rd filename projection utmZone = Inr (ok, p, z)"
  shows "(ok \<longrightarrow> p \<noteq> [] \<and> z \<noteq> 0) \<and> (rd filename \<noteq> None \<longrightarrow> (ok \<longleftrightarrow> p \<noteq> [] \<and> z \<noteq> 0))"
proof (cases "rd filename")
  case None
  with assms show ?thesis
    by (simp add: extractProjectionInfo_def)
next
  case (Some content)
  with assms show ?thesis
    by (auto simp: extractProjectionInfo_def split: sum.splits prod.splits)
qed

lemma locateMetadataFile_exists:
  "locateMetadataFile rd dir fname \<noteq> [] \<Longrightarrow> rd (locateMetadataFile rd dir fname) \<noteq> None"
  by (auto simp: locateMetadataFile_def Let_def fileExists_def split: if_splits)

lemma getEPSGFromUTMZone_valid:
  assumes "p \<noteq> []" "z \<noteq> 0"
  shows "valid_metadata_crs p z
         = (if getEPSGFromUTMZone z False \<noteq> [] then Some (getEPSGFromUTMZone z False) else None)"
  using assms by (auto simp: valid_metadata_crs_def getEPSGFromUTMZone_def)

lemma resolve_crs_record:
  assumes r: "resolve_crs rd dir fname src = Inr crs"
    and ne: "locateMetadataFile rd dir fname \<noteq> []"
    and x: "extractProjectionInfo rd (locateMetadataFile rd dir fname) [] 0 = Inr (ok, p, z)"
  shows "crs = (case valid_metadata_crs p z of
                  Some t \<Rightarrow> if t \<noteq> src then t else src
                | None \<Rightarrow> src)"
proof -
  from locateMetadataFile_exists [OF ne] extractProjectionInfo_flag [OF x]
  have flag: "ok \<longleftrightarrow> p \<noteq> [] \<and> z \<noteq> 0" by blast
  define g where "g = getEPSGFromUTMZone z False"
  from r show ?thesis
  proof (cases rule: resolve_crs_cases)
    case no_file
    with ne show ?thesis by blast
  next
    case (not_ok p' z')
    from not_ok(2) x have "\<not> ok" by simp
    with flag have "valid_metadata_crs p z = None"
      unfolding valid_metadata_crs_def by presburger
    with not_ok(3) show ?thesis by simp
  next
    case (ok p' z')
    from ok(2) x have eq: "ok" "p' = p" "z' = z" by simp_all
    from ok(3) have c: "crs = (if g \<noteq> [] \<and> src \<noteq> g then g else src)"
      unfolding g_def eq .
    from eq(1) flag have "p \<noteq> []" "z \<noteq> 0" by blast+
    then have v: "valid_metadata_crs p z = (if g \<noteq> [] then Some g else None)"
      unfolding g_def by (rule getEPSGFromUTMZone_valid)
    show ?thesis unfolding c v by (cases "g = []"; cases "src = g") simp_all
  qed
qed

lemma resolve_crs_no_file:
  assumes "locateMetadataFile rd dir fname = []"
  shows "resolve_crs rd dir fname src = Inr src"
  using assms by (simp add: resolve_crs_def)

lemma resolve_crs_exception:
  assumes "locateMetadataFile rd dir fname \<noteq> []"
    and "extractProjectionInfo rd (locateMetadataFile rd dir fname) [] 0 = Inl e"
  shows "resolve_crs rd dir fname src = Inl e"
  using assms by (simp add: resolve_crs_def)

lemma resolve_crs_returns:
  assumes "locateMetadataFile rd dir fname \<noteq> []"
    and "extractProjectionInfo rd (locateMetadataFile rd dir fname) [] 0 = Inr r"
  shows "\<exists>crs. resolve_crs rd dir fname src = Inr crs"
  using assms by (cases r) (simp add: resolve_crs_def Let_def)

lemma process_file_source_crs:
  assumes "process_file ev opts box band fname st = (fl, st')"
  obtains (same) "st' = st" "fl = None \<or> (\<exists>e. fl = Some (Uncaught e))"
  | (resolved) crs where
      "resolve_crs (read_file ev (world st)) (input_dir opts) fname (source_crs st) = Inr crs"
      "source_crs st' = crs" "matches opts band fname" "\<forall>e. fl \<noteq> Some (Uncaught e)"
  using assms
proof (cases rule: process_file_elim)
  case skip
  then show ?thesis by (intro same) simp_all
next
  case (crash e)
  then show ?thesis by (intro same) simp_all
next
  case (bad_crs crs)
  then show ?thesis by (intro resolved [of crs]) simp_all
next
  case (clip crs call ok w')
  then show ?thesis by (intro resolved [of crs]) (simp_all split: if_splits)
qed

lemma process_file_added:
  assumes "process_file ev opts box band fname st = (fl, st')"
  shows "\<exists>added. clips st' = clips st @ added
           \<and> (\<forall>c \<in> set added. epsgCode (fst c) = parseEPSG (source_crs st'))"
  using assms
proof (cases rule: process_file_elim)
  case skip
  then show ?thesis by simp
next
  case (crash e)
  then show ?thesis by simp
next
  case (bad_crs crs)
  then show ?thesis by simp
next
  case (clip crs call ok w')
  then have "clips st' = clips st @ [(call, ok)]" "epsgCode call = parseEPSG (source_crs st')"
    by simp_all
  then show ?thesis by (intro exI [of _ "[(call, ok)]"]) simp
qed

lemma process_file_crs_choice:
  assumes H: "\<forall>w ok p z.
        locateMetadataFile (read_file ev w) (input_dir opts) fname \<noteq> []
        \<and> extractProjectionInfo (read_file ev w)
            (locateMetadataFile (read_file ev w) (input_dir opts) fname) [] 0 = Inr (ok, p, z)
        \<longrightarrow> valid_metadata_crs p z = None \<or> valid_metadata_crs p z = Some t"
    and step: "process_file ev opts box band fname s = (fl, s')"
  shows "source_crs s' = source_crs s \<or> source_crs s' = t"
  using step
proof (cases rule: process_file_source_crs)
  case same
  then show ?thesis by simp
next
  case (resolved crs)
  let ?rd = "read_file ev (world s)"
  let ?path = "locateMetadataFile ?rd (input_dir opts) fname"
  show ?thesis
  proof (cases "?path = []")
    case True
    from resolve_crs_no_file [OF True, of "source_crs s"] resolved(1,2) show ?thesis by simp
  next
    case ne: False
    show ?thesis
    proof (cases "extractProjectionInfo ?rd ?path [] 0")
      case (Inl e)
      from resolve_crs_exception [OF ne Inl, of "source_crs s"] resolved(1) show ?thesis by simp
    next
      case (Inr r)
      obtain ok p z where r: "r = (ok, p, z)" by (cases r)
      with Inr have x: "extractProjectionInfo ?rd ?path [] 0 = Inr (ok, p, z)" by simp
      from H ne x have v: "valid_metadata_crs p z = None \<or> valid_metadata_crs p z = Some t"
        by blast
      from resolve_crs_record [OF resolved(1) ne x] resolved(2)
      have "source_crs s' = (case valid_metadata_crs p z of
                  Some t \<Rightarrow> if t \<noteq> source_crs s then t else source_crs s
                | None \<Rightarrow> source_crs s)"
        by simp
      with v show ?thesis by (auto split: if_splits)
    qed
  qed
qed

lemma process_file_switches_once:
  assumes H: "\<forall>w ok p z.
        locateMetadataFile (read_file ev w) (input_dir opts) fname \<noteq> []
        \<and> extractProjectionInfo (read_file ev w)
            (locateMetadataFile (read_file ev w) (input_dir opts) fname) [] 0 = Inr (ok, p, z)
        \<longrightarrow> valid_metadata_crs p z = None \<or> valid_metadata_crs p z = Some t"
    and inv: "\<exists>new. clips s = base @ new \<and> crs_switches_once c0 t new (source_crs s)"
    and step: "process_file ev opts box band fname s = (fl, s')"
  shows "\<exists>new. clips s' = base @ new \<and> crs_switches_once c0 t new (source_crs s')"
proof -
  from inv obtain new k where new: "clips s = base @ new" and k: "k \<le> length new"
    and before: "\<forall>c \<in> set (take k new). epsgCode (fst c) = parseEPSG c0"
    and after: "\<forall>c \<in> set (drop k new). epsgCode (fst c) = parseEPSG t"
    and crs: "source_crs s = t \<or> source_crs s = c0 \<and> k = length new"
    unfolding crs_switches_once_def by blast
  from process_file_added [OF step] obtain added
    where added: "clips s' = clips s @ added"
      and codes: "\<forall>c \<in> set added. epsgCode (fst c) = parseEPSG (source_crs s')"
    by blast
  from process_file_crs_choice [OF H step]
  have choice: "source_crs s' = source_crs s \<or> source_crs s' = t" .
  have app: "clips s' = base @ (new @ added)" using new added by simp
  show ?thesis
  proof (cases "source_crs s' = t")
    case True
    have "k \<le> length (new @ added)" using k by simp
    moreover have "\<forall>c \<in> set (take k (new @ added)). epsgCode (fst c) = parseEPSG c0"
      using k before by simp
    moreover have "\<forall>c \<in> set (drop k (new @ added)). epsgCode (fst c) = parseEPSG t"
      using k after codes True by auto
    ultimately have "crs_switches_once c0 t (new @ added) (source_crs s')"
      unfolding crs_switches_once_def using True by blast
    with app show ?thesis by blast
  next
    case False
    with choice crs have c0: "source_crs s' = c0" and kk: "k = length new" by auto
    have "length (new @ added) \<le> length (new @ added)" by simp
    moreover have "\<forall>c \<in> set (take (length (new @ added)) (new @ added)).
                     epsgCode (fst c) = parseEPSG c0"
      using before kk codes c0 by auto
    moreover have "\<forall>c \<in> set (drop (length (new @ added)) (new @ added)).
                     epsgCode (fst c) = parseEPSG t"
      by simp
    ultimately have "crs_switches_once c0 t (new @ added) (source_crs s')"
      unfolding crs_switches_once_def using c0 by blast
    with app show ?thesis by blast
  qed
qed

lemma run_bands_switches_once:
  assumes H: "\<forall>f \<in> set files. \<forall>w ok p z.
        locateMetadataFile (read_file ev w) (input_dir opts) f \<noteq> []
        \<and> extractProjectionInfo (read_file ev w)
            (locateMetadataFile (read_file ev w) (input_dir opts) f) [] 0 = Inr (ok, p, z)
        \<longrightarrow> valid_metadata_crs p z = None \<or> valid_metadata_crs p z = Some t"
    and run: "run_bands ev opts box files bands st = (fl, st')"
  shows "\<exists>new. clips st' = clips st @ new
           \<and> crs_switches_once (source_crs st) t new (source_crs st')"
proof -
  let ?P = "\<lambda>s :: ('a, 'b) run_state.
      \<exists>new. clips s = clips st @ new \<and> crs_switches_once (source_crs st) t new (source_crs s)"
  have step: "\<forall>band. \<forall>fname \<in> set files. \<forall>s fl s'. ?P s
              \<longrightarrow> process_file ev opts box band fname s = (fl, s') \<longrightarrow> ?P s'"
  proof (intro allI ballI impI)
    fix band fname s fl s'
    assume f: "fname \<in> set files" and Ps: "?P s"
      and p: "process_file ev opts box band fname s = (fl, s')"
    from H f have "\<forall>w ok p z.
        locateMetadataFile (read_file ev w) (input_dir opts) fname \<noteq> []
        \<and> extractProjectionInfo (read_file ev w)
            (locateMetadataFile (read_file ev w) (input_dir opts) fname) [] 0 = Inr (ok, p, z)
        \<longrightarrow> valid_metadata_crs p z = None \<or> valid_metadata_crs p z = Some t"
      by (rule bspec)
    then show "?P s'" using Ps p by (rule process_file_switches_once)
  qed
  have "crs_switches_once (source_crs st) t [] (source_crs st)"
    unfolding crs_switches_once_def by simp
  then have init: "?P st" by simp
  from step init run show "?P st'" by (rule run_bands_invariant [where P = ?P])
qed

lemma run_passes_append:
  "run_passes ev opts box (xs @ ys) st =
     (case run_passes ev opts box xs st of
        (None, s1) \<Rightarrow> run_passes ev opts box ys s1
      | (Some c, s1) \<Rightarrow> (Some c, s1))"
proof (induction xs arbitrary: st)
  case Nil
  show ?case by simp
next
  case (Cons x xs)
  obtain band fname where x: "x = (band, fname)" by (cases x)
  obtain fl1 s1 where p: "process_file ev opts box band fname st = (fl1, s1)"
    by (cases "process_file ev opts box band fname st")
  show ?case using Cons.IH [of s1] x p by (cases fl1) simp_all
qed

lemma run_files_passes:
  "run_files ev opts box band files st = run_passes ev opts box (map (Pair band) files) st"
proof (induction files arbitrary: st)
  case Nil
  show ?case by simp
next
  case (Cons f fs)
  obtain fl1 s1 where p: "process_file ev opts box band f st = (fl1, s1)"
    by (cases "process_file ev opts box band f st")
  show ?case using Cons.IH [of s1] p by (cases fl1) simp_all
qed

lemma run_bands_passes:
  "run_bands ev opts box files bands st = run_passes ev opts box (List.product bands files) st"
proof (induction bands arbitrary: st)
  case Nil
  show ?case by simp
next
  case (Cons b bs)
  obtain fl1 s1 where p: "run_files ev opts box b files st = (fl1, s1)"
    by (cases "run_files ev opts box b files st")
  then have q: "run_passes ev opts box (map (Pair b) files) st = (fl1, s1)"
    by (simp add: run_files_passes)
  show ?case using Cons.IH [of s1] p q by (cases fl1) (simp_all add: run_passes_append)
qed

text \<open>
  C7. Each pass through the loop body starts from the current value of \<open>source_crs\<close>. A
  file that is filtered out leaves the state as it is, and so does the source CRS a file
  without a metadata file. When the metadata record of a file is extracted, the source
  CRS after the pass is the valid metadata-derived CRS of the record if there is one and
  it differs from the current value, and the current value otherwise; when the extraction
  throws, the run ends there with the state as it is. The clip of the pass gets the code
  of the source CRS after the pass. Nothing sets the source CRS back: the inner loop goes
  on from the state after the pass, the outer loop goes on to the next band from the
  state the inner loop ends in, and the two loops together are one loop over the pairs
  of a band and a file that threads one state. So in any run over files whose valid
  metadata-derived CRS, where there is one, is \<open>t\<close>, the clips get the code of the
  configured CRS up to some point and the code of \<open>t\<close> from there on, across files and
  bands alike.
\<close>

theorem crs_carry_over:
  "(process_file ev opts box band fname st = (fl, st') \<longrightarrow>
      (\<not> matches opts band fname \<longrightarrow> st' = st)
      \<and> (matches opts band fname
           \<and> locateMetadataFile (read_file ev (world st)) (input_dir opts) fname = []
          \<longrightarrow> source_crs st' = source_crs st)
      \<and> (matches opts band fname
           \<and> locateMetadataFile (read_file ev (world st)) (input_dir opts) fname \<noteq> []
           \<and> extractProjectionInfo (read_file ev (world st))
               (locateMetadataFile (read_file ev (world st)) (input_dir opts) fname) [] 0
             = Inr (ok, p, z)
          \<longrightarrow> source_crs st' =
                (case valid_metadata_crs p z of
                   Some t \<Rightarrow> if t \<noteq> source_crs st then t else source_crs st
                 | None \<Rightarrow> source_crs st))
      \<and> (matches opts band fname
           \<and> locateMetadataFile (read_file ev (world st)) (input_dir opts) fname \<noteq> []
           \<and> extractProjectionInfo (read_file ev (world st))
               (locateMetadataFile (read_file ev (world st)) (input_dir opts) fname) [] 0
             = Inl e
          \<longrightarrow> fl = Some (Uncaught e) \<and> st' = st)
      \<and> (\<exists>added. clips st' = clips st @ added
            \<and> (\<forall>c \<in> set added. epsgCode (fst c) = parseEPSG (source_crs st')))
      \<and> run_files ev opts box band (fname # rest) st
          = (if fl = None then run_files ev opts box band rest st' else (fl, st')))
   \<and> (run_files ev opts box band files st = (fl_a, st_a) \<longrightarrow>
        run_bands ev opts box files (band # bands) st
          = (if fl_a = None then run_bands ev opts box files bands st_a else (fl_a, st_a)))
   \<and> run_bands ev opts box files bands st
        = run_passes ev opts box (List.product bands files) st
   \<and> ((\<forall>f \<in> set files. \<forall>w ok p z.
          locateMetadataFile (read_file ev w) (input_dir opts) f \<noteq> []
          \<and> extractProjectionInfo (read_file ev w)
              (locateMetadataFile (read_file ev w) (input_dir opts) f) [] 0 = Inr (ok, p, z)
          \<longrightarrow> valid_metadata_crs p z = None \<or> valid_metadata_crs p z = Some t_all)
        \<and> run_bands ev opts box files bands st = (fl_b, st_b)
       \<longrightarrow> (\<exists>new. clips st_b = clips st @ new
              \<and> crs_switches_once (source_crs st) t_all new (source_crs st_b)))
   \<and> ((\<forall>f \<in> set (sort (listFilesInDirectory ev w_init (input_dir opts))). \<forall>w ok p z.
          locateMetadataFile (read_file ev w) (input_dir opts) f \<noteq> []
          \<and> extractProjectionInfo (read_file ev w)
              (locateMetadataFile (read_file ev w) (input_dir opts) f) [] 0 = Inr (ok, p, z)
          \<longrightarrow> valid_metadata_crs p z = None \<or> valid_metadata_crs p z = Some t_all)
        \<and> main_body ev opts w_init = (code, final)
       \<longrightarrow> crs_switches_once (source_crs_arg opts) t_all (clips final) (source_crs final))"
proof -
  let ?rd = "read_file ev (world st)"
  let ?path = "locateMetadataFile ?rd (input_dir opts) fname"
  have A: "(\<not> matches opts band fname \<longrightarrow> st' = st)
      \<and> (matches opts band fname \<and> ?path = [] \<longrightarrow> source_crs st' = source_crs st)
      \<and> (matches opts band fname \<and> ?path \<noteq> []
           \<and> extractProjectionInfo ?rd ?path [] 0 = Inr (ok, p, z)
          \<longrightarrow> source_crs st' =
                (case valid_metadata_crs p z of
                   Some t \<Rightarrow> if t \<noteq> source_crs st then t else source_crs st
                 | None \<Rightarrow> source_crs st))
      \<and> (matches opts band fname \<and> ?path \<noteq> []
           \<and> extractProjectionInfo ?rd ?path [] 0 = Inl e
          \<longrightarrow> fl = Some (Uncaught e) \<and> st' = st)
      \<and> (\<exists>added. clips st' = clips st @ added
            \<and> (\<forall>c \<in> set added. epsgCode (fst c) = parseEPSG (source_crs st')))
      \<and> run_files ev opts box band (fname # rest) st
          = (if fl = None then run_files ev opts box band rest st' else (fl, st'))"
    if step: "process_file ev opts box band fname st = (fl, st')"
  proof -
    have a1: "\<not> matches opts band fname \<longrightarrow> st' = st"
      using step by (cases "matches opts band fname") (simp_all add: process_file_def)
    have a2: "source_crs st' = source_crs st" if m: "matches opts band fname" and "?path = []"
    proof -
      from that have r: "resolve_crs ?rd (input_dir opts) fname (source_crs st)
                          = Inr (source_crs st)"
        by (simp add: resolve_crs_no_file)
      from step show ?thesis
      proof (cases rule: process_file_source_crs)
        case same
        then show ?thesis by simp
      next
        case (resolved crs)
        with r show ?thesis by simp
      qed
    qed
    have a3: "source_crs st' =
                (case valid_metadata_crs p z of
                   Some t \<Rightarrow> if t \<noteq> source_crs st then t else source_crs st
                 | None \<Rightarrow> source_crs st)"
      if m: "matches opts band fname" and ne: "?path \<noteq> []"
        and x: "extractProjectionInfo ?rd ?path [] 0 = Inr (ok, p, z)"
    proof -
      from resolve_crs_returns [OF ne x] obtain crs
        where r: "resolve_crs ?rd (input_dir opts) fname (source_crs st) = Inr crs"
        by blast
      from step have "source_crs st' = crs"
      proof (cases rule: process_file_elim)
        case skip
        with m show ?thesis by simp
      next
        case (crash e')
        with r show ?thesis by simp
      next
        case (bad_crs crs')
        with r show ?thesis by simp
      next
        case (clip crs' call okc w')
        with r show ?thesis by simp
      qed
      with resolve_crs_record [OF r ne x] show ?thesis by simp
    qed
    have a4: "fl = Some (Uncaught e) \<and> st' = st"
      if m: "matches opts band fname" and ne: "?path \<noteq> []"
        and x: "extractProjectionInfo ?rd ?path [] 0 = Inl e"
    proof -
      have r: "resolve_crs ?rd (input_dir opts) fname (source_crs st) = Inl e"
        using ne x by (rule resolve_crs_exception)
      from step show ?thesis
      proof (cases rule: process_file_elim)
        case skip
        with m show ?thesis by simp
      next
        case (crash e')
        with r show ?thesis by simp
      next
        case (bad_crs crs')
        with r show ?thesis by simp
      next
        case (clip crs' call okc w')
        with r show ?thesis by simp
      qed
    qed
    note a5 = process_file_added [OF step]
    have a6: "run_files ev opts box band (fname # rest) st
          = (if fl = None then run_files ev opts box band rest st' else (fl, st'))"
      using step by (cases fl) simp_all
    from a1 a2 a3 a4 a5 a6 show ?thesis by blast
  qed
  have B: "run_bands ev opts box files (band # bands) st
          = (if fl_a = None then run_bands ev opts box files bands st_a else (fl_a, st_a))"
    if "run_files ev opts box band files st = (fl_a, st_a)"
    using that by (cases fl_a) simp_all
  note C = run_bands_passes [of ev opts box files bands st]
  have D: "\<exists>new. clips st_b = clips st @ new
              \<and> crs_switches_once (source_crs st) t_all new (source_crs st_b)"
    if "\<forall>f \<in> set files. \<forall>w ok p z.
          locateMetadataFile (read_file ev w) (input_dir opts) f \<noteq> []
          \<and> extractProjectionInfo (read_file ev w)
              (locateMetadataFile (read_file ev w) (input_dir opts) f) [] 0 = Inr (ok, p, z)
          \<longrightarrow> valid_metadata_crs p z = None \<or> valid_metadata_crs p z = Some t_all"
      and "run_bands ev opts box files bands st = (fl_b, st_b)"
    using that by (rule run_bands_switches_once)
  have E: "crs_switches_once (source_crs_arg opts) t_all (clips final) (source_crs final)"
    if H: "\<forall>f \<in> set (sort (listFilesInDirectory ev w_init (input_dir opts))). \<forall>w ok p z.
          locateMetadataFile (read_file ev w) (input_dir opts) f \<noteq> []
          \<and> extractProjectionInfo (read_file ev w)
              (locateMetadataFile (read_file ev w) (input_dir opts) f) [] 0 = Inr (ok, p, z)
          \<longrightarrow> valid_metadata_crs p z = None \<or> valid_metadata_crs p z = Some t_all"
      and run: "main_body ev opts w_init = (code, final)"
    using run
  proof (cases rule: main_body_cases)
    case rejected
    then show ?thesis unfolding crs_switches_once_def by simp
  next
    case (loops e' fl')
    from run_bands_switches_once [OF H loops(2)] show ?thesis by simp
  qed
  from A B C D E show ?thesis by blast
qed

lemma two_band_run:
  "main_body two_band_env two_band_opts 0 =
     (EXIT_SUCCESS,
      \<lparr> source_crs = ''EPSG:32612'', world = 2,
        clips =
          [(\<lparr> inFile = ''in/a_B1.tif'', outFile = ''outa_B1_clip.tif'',
              bbox = \<lparr> minX = 69, minY = 69, maxX = 231, maxY = 231 \<rparr>, epsgCode = 32612 \<rparr>,
            True),
           (\<lparr> inFile = ''in/b_B2.tif'', outFile = ''outb_B2_clip.tif'',
              bbox = \<lparr> minX = 69, minY = 69, maxX = 231, maxY = 231 \<rparr>, epsgCode = 32612 \<rparr>,
            True)] \<rparr>)"
  by code_simp

lemma two_band_first_band:
  "run_files two_band_env two_band_opts
     \<lparr> minX = 69, minY = 69, maxX = 231, maxY = 231 \<rparr> ''B1'' [''a_B1.tif'', ''b_B2.tif'']
     \<lparr> source_crs = ''EPSG:32615'', world = 0, clips = [] \<rparr>
   = (None,
      \<lparr> source_crs = ''EPSG:32612'', world = 1,
        clips =
          [(\<lparr> inFile = ''in/a_B1.tif'', outFile = ''outa_B1_clip.tif'',
              bbox = \<lparr> minX = 69, minY = 69, maxX = 231, maxY = 231 \<rparr>, epsgCode = 32612 \<rparr>,
            True)] \<rparr>)"
  by code_simp

lemma two_band_matches:
  "matches two_band_opts ''B1'' ''a_B1.tif''"
  "\<not> matches two_band_opts ''B2'' ''a_B1.tif''"
  "matches two_band_opts ''B2'' ''b_B2.tif''"
  "matches example_opts ''B1'' ''a_B1.tif''"
  by code_simp+

lemma example_locate:
  "locateMetadataFile (\<lambda>p. if p = ''in/a_B1.tif_MTL.txt'' then Some m else None)
     ''in/'' ''a_B1.tif'' = ''in/a_B1.tif_MTL.txt''"
  "locateMetadataFile (\<lambda>p. if p = ''in/a_B1.tif_MTL.txt'' then Some m else None)
     ''in/'' ''b_B2.tif'' = []"
  by (simp_all add: locateMetadataFile_def lacks_trailing_slash_def fileExists_def)

lemma example_extract:
  "extractProjectionInfo
     (\<lambda>p. if p = ''in/a_B1.tif_MTL.txt'' then Some example_metadata else None)
     ''in/a_B1.tif_MTL.txt'' [] 0 = Inr (True, ''UTM'', 12)"
  "extractProjectionInfo
     (\<lambda>p. if p = ''in/a_B1.tif_MTL.txt'' then Some malformed_metadata else None)
     ''in/a_B1.tif_MTL.txt'' [] 0 = Inl InvalidArgument"
  by code_simp+

lemma example_valid_crs: "valid_metadata_crs ''UTM'' 12 = Some ''EPSG:32612''"
  by code_simp

lemma two_band_sort: "sort [''b_B2.tif'', ''a_B1.tif''] = [''a_B1.tif'', ''b_B2.tif'']"
  by code_simp

lemma two_band_product:
  "List.product [''B1'', ''B2''] [''a_B1.tif'', ''b_B2.tif'']
     = [(''B1'', ''a_B1.tif''), (''B1'', ''b_B2.tif''), (''B2'', ''a_B1.tif''),
        (''B2'', ''b_B2.tif'')]"
  by simp

theorem crs_carry_over_witness:
  "main_body two_band_env two_band_opts 0 =
     (EXIT_SUCCESS,
      \<lparr> source_crs = ''EPSG:32612'', world = 2,
        clips =
          [(\<lparr> inFile = ''in/a_B1.tif'', outFile = ''outa_B1_clip.tif'',
              bbox = \<lparr> minX = 69, minY = 69, maxX = 231, maxY = 231 \<rparr>, epsgCode = 32612 \<rparr>,
            True),
           (\<lparr> inFile = ''in/b_B2.tif'', outFile = ''outb_B2_clip.tif'',
              bbox = \<lparr> minX = 69, minY = 69, maxX = 231, maxY = 231 \<rparr>, epsgCode = 32612 \<rparr>,
            True)] \<rparr>)
   \<and> crs_switches_once ''EPSG:32615'' ''EPSG:32612''
       (clips (snd (main_body two_band_env two_band_opts 0)))
       (source_crs (snd (main_body two_band_env two_band_opts 0)))
   \<and> crs_switches_once ''EPSG:32615'' ''EPSG:32612''
       (clips (snd (run_bands two_band_env two_band_opts
         \<lparr> minX = 69, minY = 69, maxX = 231, maxY = 231 \<rparr> [''a_B1.tif'', ''b_B2.tif'']
         [''B1'', ''B2''] \<lparr> source_crs = ''EPSG:32615'', world = 0, clips = [] \<rparr>)))
       (source_crs (snd (run_bands two_band_env two_band_opts
         \<lparr> minX = 69, minY = 69, maxX = 231, maxY = 231 \<rparr> [''a_B1.tif'', ''b_B2.tif'']
         [''B1'', ''B2''] \<lparr> source_crs = ''EPSG:32615'', world = 0, clips = [] \<rparr>)))
   \<and> source_crs (snd (process_file two_band_env two_band_opts
         \<lparr> minX = 69, minY = 69, maxX = 231, maxY = 231 \<rparr> ''B1'' ''a_B1.tif''
         \<lparr> source_crs = ''EPSG:32615'', world = 0, clips = [] \<rparr>)) = ''EPSG:32612''
   \<and> source_crs (snd (process_file two_band_env two_band_opts
         \<lparr> minX = 69, minY = 69, maxX = 231, maxY = 231 \<rparr> ''B2'' ''b_B2.tif''
         \<lparr> source_crs = ''EPSG:32612'', world = 1,
           clips =
             [(\<lparr> inFile = ''in/a_B1.tif'', outFile = ''outa_B1_clip.tif'',
                 bbox = \<lparr> minX = 69, minY = 69, maxX = 231, maxY = 231 \<rparr>, epsgCode = 32612 \<rparr>,
               True)] \<rparr>)) = ''EPSG:32612''
   \<and> snd (process_file two_band_env two_band_opts
         \<lparr> minX = 69, minY = 69, maxX = 231, maxY = 231 \<rparr> ''B2'' ''a_B1.tif''
         \<lparr> source_crs = ''EPSG:32612'', world = 1,
           clips =
             [(\<lparr> inFile = ''in/a_B1.tif'', outFile = ''outa_B1_clip.tif'',
                 bbox = \<lparr> minX = 69, minY = 69, maxX = 231, maxY = 231 \<rparr>, epsgCode = 32612 \<rparr>,
               True)] \<rparr>)
     = \<lparr> source_crs = ''EPSG:32612'', world = 1,
           clips =
             [(\<lparr> inFile = ''in/a_B1.tif'', outFile = ''outa_B1_clip.tif'',
                 bbox = \<lparr> minX = 69, minY = 69, maxX = 231, maxY = 231 \<rparr>, epsgCode = 32612 \<rparr>,
               True)] \<rparr>
   \<and> process_file (example_env malformed_metadata []) example_opts
         \<lparr> minX = 69, minY = 69, maxX = 231, maxY = 231 \<rparr> ''B1'' ''a_B1.tif''
         \<lparr> source_crs = ''EPSG:32615'', world = 0, clips = [] \<rparr>
     = (Some (Uncaught InvalidArgument),
        \<lparr> source_crs = ''EPSG:32615'', world = 0, clips = [] \<rparr>)
   \<and> run_bands two_band_env two_band_opts
         \<lparr> minX = 69, minY = 69, maxX = 231, maxY = 231 \<rparr> [''a_B1.tif'', ''b_B2.tif'']
         [''B1'', ''B2''] \<lparr> source_crs = ''EPSG:32615'', world = 0, clips = [] \<rparr>
     = run_bands two_band_env two_band_opts
         \<lparr> minX = 69, minY = 69, maxX = 231, maxY = 231 \<rparr> [''a_B1.tif'', ''b_B2.tif'']
         [''B2'']
         \<lparr> source_crs = ''EPSG:32612'', world = 1,
           clips =
             [(\<lparr> inFile = ''in/a_B1.tif'', outFile = ''outa_B1_clip.tif'',
                 bbox = \<lparr> minX = 69, minY = 69, maxX = 231, maxY = 231 \<rparr>, epsgCode = 32612 \<rparr>,
               True)] \<rparr>
   \<and> run_bands two_band_env two_band_opts
         \<lparr> minX = 69, minY = 69, maxX = 231, maxY = 231 \<rparr> [''a_B1.tif'', ''b_B2.tif'']
         [''B1'', ''B2''] \<lparr> source_crs = ''EPSG:32615'', world = 0, clips = [] \<rparr>
     = run_passes two_band_env two_band_opts
         \<lparr> minX = 69, minY = 69, maxX = 231, maxY = 231 \<rparr>
         [(''B1'', ''a_B1.tif''), (''B1'', ''b_B2.tif''), (''B2'', ''a_B1.tif''),
          (''B2'', ''b_B2.tif'')]
         \<lparr> source_crs = ''EPSG:32615'', world = 0, clips = [] \<rparr>"
proof -
  let ?ev = two_band_env
  let ?opts = two_band_opts
  let ?bad = "example_env malformed_metadata []"
  let ?box = "\<lparr> minX = 69 :: real, minY = 69, maxX = 231, maxY = 231 \<rparr>"
  let ?a = "(\<lparr> inFile = ''in/a_B1.tif'', outFile = ''outa_B1_clip.tif'', bbox = ?box,
               epsgCode = 32612 \<rparr>, True)"
  let ?s0 = "\<lparr> source_crs = ''EPSG:32615'', world = 0 :: nat,
                clips = [] :: (real clip_call \<times> bool) list \<rparr>"
  let ?s1 = "\<lparr> source_crs = ''EPSG:32612'', world = 1 :: nat, clips = [?a] \<rparr>"
  let ?files = "[''a_B1.tif'', ''b_B2.tif'']"
  let ?first = "process_file ?ev ?opts ?box ''B1'' ''a_B1.tif'' ?s0"
  let ?second = "process_file ?ev ?opts ?box ''B2'' ''b_B2.tif'' ?s1"
  let ?skip = "process_file ?ev ?opts ?box ''B2'' ''a_B1.tif'' ?s1"
  let ?crash = "process_file ?bad example_opts ?box ''B1'' ''a_B1.tif'' ?s0"
  let ?run = "main_body ?ev ?opts 0"
  let ?loops = "run_bands ?ev ?opts ?box ?files [''B1'', ''B2''] ?s0"
  have rd: "read_file ?ev w
              = (\<lambda>p. if p = ''in/a_B1.tif_MTL.txt'' then Some example_metadata else None)"
    "read_file ?bad w
              = (\<lambda>p. if p = ''in/a_B1.tif_MTL.txt'' then Some malformed_metadata
                      else None)" for w
    by (simp_all add: two_band_env_def example_env_def)
  have dir: "input_dir ?opts = ''in/''" "input_dir example_opts = ''in/''"
    "source_crs_arg ?opts = ''EPSG:32615''"
    by (simp_all add: two_band_opts_def example_opts_def)
  have listing: "sort (listFilesInDirectory ?ev 0 (input_dir ?opts)) = ?files"
    by (simp add: two_band_env_def two_band_sort)
  have H: "\<forall>f \<in> set ?files. \<forall>w ok p z.
          locateMetadataFile (read_file ?ev w) (input_dir ?opts) f \<noteq> []
          \<and> extractProjectionInfo (read_file ?ev w)
              (locateMetadataFile (read_file ?ev w) (input_dir ?opts) f) [] 0 = Inr (ok, p, z)
          \<longrightarrow> valid_metadata_crs p z = None \<or> valid_metadata_crs p z = Some ''EPSG:32612''"
    by (auto simp: rd dir example_locate example_extract example_valid_crs)
  note general = crs_carry_over [where ev = ?ev and opts = ?opts and box = ?box
      and files = ?files and st = ?s0 and band = "''B1''" and bands = "[''B2'']"
      and fl_a = None and st_a = ?s1 and t_all = "''EPSG:32612''" and w_init = 0
      and fl_b = "fst ?loops" and st_b = "snd ?loops"
      and code = "fst ?run" and final = "snd ?run"
      and fname = "''a_B1.tif''" and fl = "fst ?first" and st' = "snd ?first"
      and ok = True and p = "''UTM''" and z = 12 and e = InvalidArgument and rest = "[]"]
  note both = crs_carry_over [where ev = ?ev and opts = ?opts and box = ?box
      and files = ?files and st = ?s0 and band = "''B1''" and bands = "[''B1'', ''B2'']"
      and fl_a = None and st_a = ?s1 and t_all = "''EPSG:32612''" and w_init = 0
      and fl_b = "fst ?loops" and st_b = "snd ?loops"
      and code = "fst ?run" and final = "snd ?run"
      and fname = "''a_B1.tif''" and fl = "fst ?first" and st' = "snd ?first"
      and ok = True and p = "''UTM''" and z = 12 and e = InvalidArgument and rest = "[]"]
  note nofile = crs_carry_over [where ev = ?ev and opts = ?opts and box = ?box
      and band = "''B2''" and fname = "''b_B2.tif''" and st = ?s1
      and fl = "fst ?second" and st' = "snd ?second" and e = InvalidArgument and ok = True and p = "[]" and z = 0 and rest = "[]"
      and files = "[]" and fl_a = None and st_a = ?s0 and bands = "[]" and t_all = "[]"
      and fl_b = None and st_b = ?s0 and w_init = 0 and code = EXIT_SUCCESS and final = ?s0]
  note skipped = crs_carry_over [where ev = ?ev and opts = ?opts and box = ?box
      and band = "''B2''" and fname = "''a_B1.tif''" and st = ?s1
      and fl = "fst ?skip" and st' = "snd ?skip" and e = InvalidArgument and ok = True and p = "[]" and z = 0 and rest = "[]"
      and files = "[]" and fl_a = None and st_a = ?s0 and bands = "[]" and t_all = "[]"
      and fl_b = None and st_b = ?s0 and w_init = 0 and code = EXIT_SUCCESS and final = ?s0]
  note crashed = crs_carry_over [where ev = ?bad and opts = example_opts and box = ?box
      and band = "''B1''" and fname = "''a_B1.tif''" and st = ?s0
      and fl = "fst ?crash" and st' = "snd ?crash" and e = InvalidArgument and ok = True and p = "[]" and z = 0 and rest = "[]"
      and files = "[]" and fl_a = None and st_a = ?s0 and bands = "[]" and t_all = "[]"
      and fl_b = None and st_b = ?s0 and w_init = 0 and code = EXIT_SUCCESS and final = ?s0]
  have HE: "\<forall>f \<in> set (sort (listFilesInDirectory ?ev 0 (input_dir ?opts))). \<forall>w ok p z.
          locateMetadataFile (read_file ?ev w) (input_dir ?opts) f \<noteq> []
          \<and> extractProjectionInfo (read_file ?ev w)
              (locateMetadataFile (read_file ?ev w) (input_dir ?opts) f) [] 0 = Inr (ok, p, z)
          \<longrightarrow> valid_metadata_crs p z = None \<or> valid_metadata_crs p z = Some ''EPSG:32612''"
    unfolding listing by (rule H)
  have runs: "?run = (fst ?run, snd ?run)" "?loops = (fst ?loops, snd ?loops)"
    "?first = (fst ?first, snd ?first)" "?second = (fst ?second, snd ?second)"
    "?skip = (fst ?skip, snd ?skip)" "?crash = (fst ?crash, snd ?crash)"
    by simp_all
  note E = general [THEN conjunct2, THEN conjunct2, THEN conjunct2, THEN conjunct2]
  note D = both [THEN conjunct2, THEN conjunct2, THEN conjunct2, THEN conjunct1]
  note C = both [THEN conjunct2, THEN conjunct2, THEN conjunct1]
  note B = general [THEN conjunct2, THEN conjunct1]
  note A = general [THEN conjunct1, THEN mp, OF runs(3)]
  note A2 = nofile [THEN conjunct1, THEN mp, OF runs(4)]
  note A1 = skipped [THEN conjunct1, THEN mp, OF runs(5)]
  note A4 = crashed [THEN conjunct1, THEN mp, OF runs(6)]
  from E [THEN mp, OF conjI [OF HE runs(1)]]
  have whole: "crs_switches_once ''EPSG:32615'' ''EPSG:32612'' (clips (snd ?run))
                 (source_crs (snd ?run))"
    unfolding dir(3) .
  from D [THEN mp, OF conjI [OF H runs(2)]]
  have inner: "\<exists>new. clips (snd ?loops) = clips ?s0 @ new
                 \<and> crs_switches_once (source_crs ?s0) ''EPSG:32612'' new (source_crs (snd ?loops))" .
  then have inner': "crs_switches_once ''EPSG:32615'' ''EPSG:32612'' (clips (snd ?loops))
                       (source_crs (snd ?loops))"
    by simp
  have loc_a: "locateMetadataFile (read_file ?ev (world ?s0)) (input_dir ?opts) ''a_B1.tif'' \<noteq> []"
    and ext_a: "extractProjectionInfo (read_file ?ev (world ?s0))
       (locateMetadataFile (read_file ?ev (world ?s0)) (input_dir ?opts) ''a_B1.tif'') [] 0
         = Inr (True, ''UTM'', 12)"
    and loc_b: "locateMetadataFile (read_file ?ev (world ?s1)) (input_dir ?opts) ''b_B2.tif'' = []"
    and loc_bad: "locateMetadataFile (read_file ?bad (world ?s0)) (input_dir example_opts)
                    ''a_B1.tif'' \<noteq> []"
    and ext_bad: "extractProjectionInfo (read_file ?bad (world ?s0))
       (locateMetadataFile (read_file ?bad (world ?s0)) (input_dir example_opts) ''a_B1.tif'')
         [] 0 = Inl InvalidArgument"
    by (simp_all add: rd dir example_locate example_extract)
  from A [THEN conjunct2, THEN conjunct2, THEN conjunct1, THEN mp,
      OF conjI [OF two_band_matches(1) conjI [OF loc_a ext_a]]]
  have adopted: "source_crs (snd ?first) = ''EPSG:32612''"
    by (simp add: example_valid_crs)
  from A2 [THEN conjunct2, THEN conjunct1, THEN mp, OF conjI [OF two_band_matches(3) loc_b]]
  have kept: "source_crs (snd ?second) = ''EPSG:32612''"
    by simp
  from A1 [THEN conjunct1, THEN mp, OF two_band_matches(2)]
  have sk: "snd ?skip = ?s1" .
  from A4 [THEN conjunct2, THEN conjunct2, THEN conjunct2, THEN conjunct1, THEN mp,
      OF conjI [OF two_band_matches(4) conjI [OF loc_bad ext_bad]]]
  have cr: "fst ?crash = Some (Uncaught InvalidArgument) \<and> snd ?crash = ?s0" .
  then have cr': "?crash = (Some (Uncaught InvalidArgument), ?s0)"
    by (metis prod.collapse)
  from B [THEN mp, OF two_band_first_band]
  have next_band: "?loops = run_bands ?ev ?opts ?box ?files [''B2''] ?s1"
    by simp
  from C
  have flat: "?loops = run_passes ?ev ?opts ?box
                 (List.product [''B1'', ''B2''] ?files) ?s0" .
  from two_band_run whole inner' adopted kept sk cr' next_band flat
  show ?thesis unfolding two_band_product by blast
qed

text \<open>
  C1. The driver builds the input path from the input directory, a \<open>/\<close> when that
  directory lacks a trailing one, the stem and the extension. For the output path it
  tests the input directory again, not the output directory: with the input directory
  \<open>in/\<close> and the output directory \<open>out\<close> the output path of \<open>a_B1.tif\<close> is
  \<open>outa_B1_clip.tif\<close>, with no separator, and with \<open>in\<close> and \<open>out/\<close> it is
  \<open>out//a_B1_clip.tif\<close>, with two.
\<close>

theorem outFile_separator_keyed_on_input_dir:
  "make_inFile ''in/'' (splitPath ''a_B1.tif'') = ''in/a_B1.tif''
   \<and> make_inFile ''in'' (splitPath ''a_B1.tif'') = ''in/a_B1.tif''
   \<and> make_outFile ''in/'' ''out'' ''_clip'' (splitPath ''a_B1.tif'') = ''outa_B1_clip.tif''
   \<and> make_outFile ''in'' ''out/'' ''_clip'' (splitPath ''a_B1.tif'') = ''out//a_B1_clip.tif''
   \<and> map (outFile \<circ> fst)
        (clips (snd (main_body (example_env example_metadata []) example_opts 0)))
      = [''outa_B1_clip.tif'', ''outb_B1_clip.tif'', ''outc_B1_clip.tif'']"
  by code_simp

text \<open>
  C2. When \<open>extractProjectionInfo\<close> returns, its flag is true only if both fields were
  found (lemma \<open>extractProjectionInfo_flag\<close>), and the driver keeps the source CRS when
  the flag is false. But the function does not always return: a \<open>UTM_ZONE\<close> line whose value
  is not a number makes \<open>std::stoi\<close> throw, and a line with nothing but blanks makes the
  \<open>substr\<close> that trims it throw; nothing catches either exception, and the run ends there
  without a clip.
\<close>

theorem metadata_exception_ends_run:
  "extractProjectionInfo (\<lambda>p. Some ''UTM_ZONE = abc'') ''in/a_B1.tif_MTL.txt'' [] 0
     = Inl InvalidArgument
   \<and> main_body (example_env (''UTM_ZONE = abc'' @ [CHR 0x0A]) []) example_opts 0
     = (Uncaught InvalidArgument, \<lparr> source_crs = ''EPSG:32615'', world = 0, clips = [] \<rparr>)
   \<and> main_body (example_env (''MAP_PROJECTION = UTM'' @ [CHR 0x0A, CHR 0x0A]
                              @ ''UTM_ZONE = 12'' @ [CHR 0x0A]) []) example_opts 0
     = (Uncaught OutOfRange, \<lparr> source_crs = ''EPSG:32615'', world = 0, clips = [] \<rparr>)"
  by code_simp

end
